theory Spec2Isabelle
  imports Complex_Main "HOL-Library.AList" "HOL-Library.Sublist"
begin

section \<open>Python values used by the searcher\<close>

text \<open>
  The development embeds \<^verbatim>\<open>mtc2413-searcher.py\<close>. Python floats are modelled by
  the real numbers: every branch, guard and formula of the source is kept, rounding is not
  modelled. Python integers are \<open>int\<close> or \<open>nat\<close>. Strings are lists of 8-bit
  characters. An exception is a value \<open>Inl e\<close> of a sum type.
\<close>

datatype py_error = ValueError | ZeroDivisionError | BackendError

text \<open>\<^verbatim>\<open>math.log(x)\<close> raises \<^verbatim>\<open>ValueError\<close> outside its domain.\<close>

definition py_log :: "real \<Rightarrow> py_error + real" where
  "py_log x = (if x \<le> 0 then Inl ValueError else Inr (ln x))"

text \<open>True division \<^verbatim>\<open>a / b\<close>.\<close>

definition py_div :: "real \<Rightarrow> real \<Rightarrow> py_error + real" where
  "py_div a b = (if b = 0 then Inl ZeroDivisionError else Inr (a / b))"

text \<open>\<^verbatim>\<open>int(x)\<close> of a float truncates towards zero.\<close>

definition py_int :: "real \<Rightarrow> int" where
  "py_int x = (if 0 \<le> x then \<lfloor>x\<rfloor> else \<lceil>x\<rceil>)"

subsection \<open>Strings\<close>

text \<open>
  \<^verbatim>\<open>str.isspace\<close> on the code points below 256: tab to carriage return, the four
  separators 28 to 31, the space, NEL (133) and the no-break space (160).
\<close>

definition is_space :: "char \<Rightarrow> bool" where
  "is_space ch = (let n = (of_char ch :: nat) in
     (9 \<le> n \<and> n \<le> 13) \<or> (28 \<le> n \<and> n \<le> 32) \<or> n = 133 \<or> n = 160)"

text \<open>\<^verbatim>\<open>s.strip()\<close>.\<close>

definition py_strip :: "string \<Rightarrow> string" where
  "py_strip s = rev (dropWhile is_space (rev (dropWhile is_space s)))"

text \<open>
  \<^verbatim>\<open>s.split()\<close>: maximal runs of non-space characters, in order. The first argument
  is the word being read.
\<close>

fun split_from :: "string \<Rightarrow> string \<Rightarrow> string list" where
  "split_from cur [] = (if cur = [] then [] else [cur])"
| "split_from cur (ch # cs) =
     (if is_space ch then (if cur = [] then split_from [] cs else cur # split_from [] cs)
      else split_from (cur @ [ch]) cs)"

definition py_split :: "string \<Rightarrow> string list" where
  "py_split s = split_from [] s"

text \<open>\<^verbatim>\<open>s.startswith(p)\<close>.\<close>

definition startswith :: "string \<Rightarrow> string \<Rightarrow> bool" where
  "startswith s p = (take (length p) s = p)"

text \<open>
  \<^verbatim>\<open>s.replace(old, "")\<close> for a non-empty \<open>old\<close>: the occurrences are removed from
  left to right, without overlap.
\<close>

fun replace_by_empty :: "string \<Rightarrow> string \<Rightarrow> string" where
  "replace_by_empty old [] = []"
| "replace_by_empty old (ch # cs) =
     (if old \<noteq> [] \<and> startswith (ch # cs) old
      then replace_by_empty old (drop (length old - 1) cs)
      else ch # replace_by_empty old cs)"

section \<open>The topic file parser\<close>

text \<open>
  \<^verbatim>\<open>parse_fire_queries\<close> reads the file line by line; the model takes the list of the
  lines. The dictionary \<^verbatim>\<open>queries\<close> keeps insertion order, and assigning to a key
  that is present keeps its place: this is \<^const>\<open>AList.update\<close> on an association list.
  The local variables \<^verbatim>\<open>qid\<close> and \<^verbatim>\<open>title\<close> are \<^verbatim>\<open>None\<close> or a string.
\<close>

type_synonym parser_state = "(string \<times> string) list \<times> string option \<times> string option"

text \<open>Truth value of \<^verbatim>\<open>None\<close> or a string: a non-empty string is true.\<close>

definition truthy :: "string option \<Rightarrow> bool" where
  "truthy v = (case v of None \<Rightarrow> False | Some s \<Rightarrow> s \<noteq> [])"

text \<open>One iteration of the loop over the lines.\<close>

definition parse_line :: "string \<Rightarrow> parser_state \<Rightarrow> parser_state" where
  "parse_line raw_line st =
     (case st of (queries, qid, title) \<Rightarrow>
        let line = py_strip raw_line in
        if startswith line ''<num>''
        then (queries,
              Some (py_strip (replace_by_empty ''</num>'' (replace_by_empty ''<num>'' line))),
              title)
        else if startswith line ''<title>''
        then (queries, qid, Some (py_strip (drop (length ''<title>'') line)))
        else if startswith line ''</top>'' \<and> truthy qid \<and> truthy title
        then (case (qid, title) of
                (Some q, Some t) \<Rightarrow> (AList.update q t queries, None, None)
              | _ \<Rightarrow> st)
        else st)"

definition parse_fire_queries :: "string list \<Rightarrow> (string \<times> string) list" where
  "parse_fire_queries file_lines = fst (fold parse_line file_lines ([], None, None))"

section \<open>Feature computation and the saturation transform\<close>

definition c :: real where "c = 1"
definition alpha :: real where "alpha = 1 / 2"
definition tau_x :: real where "tau_x = 6"
definition tau_y :: real where "tau_y = 65"
definition lambda_exp :: real where "lambda_exp = 1 / 2"

text \<open>
  \<^verbatim>\<open>compute_normalized_tf(tf, doc_len, mean_tf)\<close>. The operands are evaluated from left
  to right, so the first failing operation decides the exception.
\<close>

definition compute_normalized_tf :: "int \<Rightarrow> int \<Rightarrow> real \<Rightarrow> py_error + real \<times> real" where
  "compute_normalized_tf tf doc_len mean_tf =
     (case (if mean_tf > 0
            then (case py_log (1 + real_of_int tf) of
                    Inl e \<Rightarrow> Inl e
                  | Inr a \<Rightarrow> (case py_log (c + mean_tf) of
                               Inl e \<Rightarrow> Inl e
                             | Inr b \<Rightarrow> py_div a b))
            else Inr 0) of
        Inl e \<Rightarrow> Inl e
      | Inr X \<Rightarrow>
          (case (if doc_len > 0
                 then (case py_div 1000 (real_of_int doc_len) of
                         Inl e \<Rightarrow> Inl e
                       | Inr q \<Rightarrow> (case py_log (1 + q) of
                                    Inl e \<Rightarrow> Inl e
                                  | Inr l \<Rightarrow> Inr (real_of_int tf * l)))
                 else Inr 0) of
             Inl e \<Rightarrow> Inl e
           | Inr Y \<Rightarrow> Inr (X, Y)))"

text \<open>\<^verbatim>\<open>truncated_exp_score(x, tau, lambda_)\<close>.\<close>

definition truncated_exp_score :: "real \<Rightarrow> real \<Rightarrow> real \<Rightarrow> py_error + real" where
  "truncated_exp_score x tau lambda =
     (if 0 < x \<and> x < tau / 2
      then py_div (1 - exp (- lambda * x)) (1 - exp (- lambda * tau))
      else if x \<le> tau then py_div x tau
      else Inr 0)"

text \<open>The number a call returns, for statements about the curve as a real function.\<close>

definition returned :: "py_error + real \<Rightarrow> real" where
  "returned r = (case r of Inl e \<Rightarrow> 0 | Inr v \<Rightarrow> v)"

section \<open>The retrieval capability\<close>

text \<open>
  The searcher is an external object (\<^verbatim>\<open>LuceneSearcher\<close>). Its two methods are
  parameters of the model. Each takes and returns the state \<open>'w\<close> of everything outside
  the program, so that a call can fail once and succeed later, and so that "no call was
  made" reads "the outside state is the same". \<^verbatim>\<open>search(q, k)\<close> returns a list of hits
  or raises; \<^verbatim>\<open>doc(docid).raw()\<close> returns a string, returns \<^verbatim>\<open>None\<close>, or raises.
\<close>

record hit =
  docid :: string
  score :: real

type_synonym 'w search_fn = "string \<Rightarrow> nat \<Rightarrow> 'w \<Rightarrow> (py_error + hit list) \<times> 'w"

type_synonym 'w raw_fn = "string \<Rightarrow> 'w \<Rightarrow> (py_error + string option) \<times> 'w"

section \<open>The fallback IDF calculator\<close>

text \<open>
  The fields of \<^verbatim>\<open>FallbackIDFCalculator\<close> that change or are computed; the field
  \<^verbatim>\<open>searcher\<close> is the parameter \<open>search\<close> of the methods.
\<close>

record idf_calculator =
  doc_count :: int
  term_cache :: "string \<rightharpoonup> real"

text \<open>
  \<^verbatim>\<open>_estimate_doc_count\<close>: the bare \<^verbatim>\<open>except\<close> turns every failure into the
  default.
\<close>

definition estimate_doc_count :: "'w search_fn \<Rightarrow> 'w \<Rightarrow> int \<times> 'w" where
  "estimate_doc_count search w =
     (case search ''the'' 1 w of
        (Inl e, w') \<Rightarrow> (1000000, w')
      | (Inr hits, w') \<Rightarrow>
          (case hits of [] \<Rightarrow> (1000000, w') | h # rest \<Rightarrow> (py_int (score h), w')))"

text \<open>The constructor \<^verbatim>\<open>__init__\<close>.\<close>

definition new_calculator :: "'w search_fn \<Rightarrow> 'w \<Rightarrow> idf_calculator \<times> 'w" where
  "new_calculator search w =
     (case estimate_doc_count search w of
        (n, w') \<Rightarrow> (\<lparr>doc_count = n, term_cache = Map.empty\<rparr>, w'))"

text \<open>
  \<^verbatim>\<open>get_idf\<close>. The \<^verbatim>\<open>try\<close> block covers the search, the division and the
  logarithm; the cache is written only when all three succeed.
\<close>

definition get_idf :: "'w search_fn \<Rightarrow> string \<Rightarrow> idf_calculator \<times> 'w \<Rightarrow> real \<times> idf_calculator \<times> 'w" where
  "get_idf search term st =
     (case st of (calc, w) \<Rightarrow>
        (case term_cache calc term of
           Some v \<Rightarrow> (v, calc, w)
         | None \<Rightarrow>
             (case search term 100 w of
                (Inl e, w') \<Rightarrow> (0, calc, w')
              | (Inr hits, w') \<Rightarrow>
                  (let df = length hits in
                   case py_div (real_of_int (doc_count calc + 1)) (real (df + 1)) of
                     Inl e \<Rightarrow> (0, calc, w')
                   | Inr q \<Rightarrow>
                       (case py_log q of
                          Inl e \<Rightarrow> (0, calc, w')
                        | Inr idf \<Rightarrow>
                            (idf, calc\<lparr>term_cache := (term_cache calc)(term \<mapsto> idf)\<rparr>, w'))))))"

text \<open>A sequence of lookups, one after the other, with the values they return.\<close>

fun get_idfs :: "'w search_fn \<Rightarrow> string list \<Rightarrow> idf_calculator \<times> 'w \<Rightarrow> real list \<times> idf_calculator \<times> 'w" where
  "get_idfs search [] st = ([], st)"
| "get_idfs search (t # ts) st =
     (case get_idf search t st of
        (v, st') \<Rightarrow> (case get_idfs search ts st' of (vs, st'') \<Rightarrow> (v # vs, st'')))"

section \<open>The reranker\<close>

text \<open>
  \<^verbatim>\<open>rerank(query, hits, searcher, idf_calculator)\<close> calls \<^verbatim>\<open>searcher.doc\<close> and
  \<^verbatim>\<open>idf_calculator.get_idf\<close>; the calculator is any object with that method (an
  \<^verbatim>\<open>IndexReader\<close> or the fallback). Both are parameters, acting on one state \<open>'s\<close> that
  holds the calculator and the outside world. A lookup may raise.
\<close>

type_synonym 's idf_fn = "string \<Rightarrow> 's \<Rightarrow> (py_error + real) \<times> 's"

text \<open>
  The \<^verbatim>\<open>defaultdict(int)\<close> built by \<^verbatim>\<open>tf_map[word] += 1\<close>, and reading it with the
  default 0.
\<close>

definition bump :: "(string \<rightharpoonup> nat) \<Rightarrow> string \<Rightarrow> (string \<rightharpoonup> nat)" where
  "bump m w = m(w \<mapsto> (case m w of None \<Rightarrow> 0 | Some n \<Rightarrow> n) + 1)"

definition build_tf_map :: "string list \<Rightarrow> (string \<rightharpoonup> nat)" where
  "build_tf_map doc_words = fold (\<lambda>w m. bump m w) doc_words Map.empty"

definition tf_get :: "(string \<rightharpoonup> nat) \<Rightarrow> string \<Rightarrow> nat" where
  "tf_get m t = (case m t of None \<Rightarrow> 0 | Some n \<Rightarrow> n)"

text \<open>Lines 86 and 87: the query terms present in the document and their mean frequency.\<close>

definition compute_mean_tf :: "(string \<rightharpoonup> nat) \<Rightarrow> string list \<Rightarrow> py_error + real" where
  "compute_mean_tf tf_map query_split =
     (let query_terms = filter (\<lambda>term. term \<in> dom tf_map) query_split in
      if query_terms \<noteq> []
      then py_div (real (sum_list (map (tf_get tf_map) query_terms))) (real (length query_split))
      else Inr 0)"

text \<open>
  The loop over the query terms (lines 90 to 100), with the running \<^verbatim>\<open>score\<close>. An
  exception leaves the loop.
\<close>

fun score_terms :: "'s idf_fn \<Rightarrow> (string \<rightharpoonup> nat) \<Rightarrow> nat \<Rightarrow> real \<Rightarrow> string list \<Rightarrow> real \<Rightarrow> 's
    \<Rightarrow> (py_error + real) \<times> 's" where
  "score_terms idf_of tf_map doc_len mean_tf [] sc s = (Inr sc, s)"
| "score_terms idf_of tf_map doc_len mean_tf (term # terms) sc s =
     (let tf = tf_get tf_map term in
      if tf = 0 then score_terms idf_of tf_map doc_len mean_tf terms sc s
      else
        (case compute_normalized_tf (int tf) (int doc_len) mean_tf of
           Inl e \<Rightarrow> (Inl e, s)
         | Inr (X, Y) \<Rightarrow>
             (case truncated_exp_score X tau_x lambda_exp of
                Inl e \<Rightarrow> (Inl e, s)
              | Inr f_xt \<Rightarrow>
                  (case truncated_exp_score Y tau_y lambda_exp of
                     Inl e \<Rightarrow> (Inl e, s)
                   | Inr f_yt \<Rightarrow>
                       (case idf_of term s of
                          (Inl e, s') \<Rightarrow> (Inl e, s')
                        | (Inr idf, s') \<Rightarrow>
                            score_terms idf_of tf_map doc_len mean_tf terms
                              (sc + idf * (alpha * f_xt + (1 - alpha) * f_yt)) s')))))"

text \<open>The body of the \<^verbatim>\<open>try\<close> block for one hit: the score of the document, or the exception.\<close>

definition score_document :: "'s raw_fn \<Rightarrow> 's idf_fn \<Rightarrow> string \<Rightarrow> hit \<Rightarrow> 's \<Rightarrow> (py_error + real) \<times> 's" where
  "score_document raw_of idf_of query h s =
     (case raw_of (docid h) s of
        (Inl e, s1) \<Rightarrow> (Inl e, s1)
      | (Inr raw, s1) \<Rightarrow>
          (let content = (case raw of None \<Rightarrow> [] | Some text \<Rightarrow> text);
               doc_words = py_split content;
               doc_len = length doc_words;
               tf_map = build_tf_map doc_words
           in case compute_mean_tf tf_map (py_split query) of
                Inl e \<Rightarrow> (Inl e, s1)
              | Inr mean_tf \<Rightarrow> score_terms idf_of tf_map doc_len mean_tf (py_split query) 0 s1))"

text \<open>
  The loop over the hits: a document whose block raised is skipped (the message goes to the
  standard error stream), the others are appended to \<^verbatim>\<open>doc_scores\<close> in the order of the hits.
\<close>

fun score_hits :: "'s raw_fn \<Rightarrow> 's idf_fn \<Rightarrow> string \<Rightarrow> hit list \<Rightarrow> 's \<Rightarrow> (string \<times> real) list \<times> 's" where
  "score_hits raw_of idf_of query [] s = ([], s)"
| "score_hits raw_of idf_of query (h # hs) s =
     (case score_document raw_of idf_of query h s of
        (Inl e, s') \<Rightarrow> score_hits raw_of idf_of query hs s'
      | (Inr sc, s') \<Rightarrow>
          (case score_hits raw_of idf_of query hs s' of
             (rest, s'') \<Rightarrow> ((docid h, sc) # rest, s'')))"

text \<open>
  \<^verbatim>\<open>doc_scores.sort(key=lambda x: x[1], reverse=True)\<close>: the list is reversed, sorted by
  the key with a stable ascending sort, and reversed again.
\<close>

definition sort_reverse :: "(string \<times> real) list \<Rightarrow> (string \<times> real) list" where
  "sort_reverse doc_scores = rev (sort_key snd (rev doc_scores))"

definition rerank :: "'s raw_fn \<Rightarrow> 's idf_fn \<Rightarrow> string \<Rightarrow> hit list \<Rightarrow> 's \<Rightarrow> (string \<times> real) list \<times> 's" where
  "rerank raw_of idf_of query hits s =
     (case score_hits raw_of idf_of query hits s of
        (doc_scores, s') \<Rightarrow> (sort_reverse doc_scores, s'))"

text \<open>
  The fallback calculator as the \<^verbatim>\<open>idf_calculator\<close> of \<^verbatim>\<open>rerank\<close>, and the
  searcher's \<^verbatim>\<open>doc\<close> on the same state.
\<close>

definition fallback_idf :: "'w search_fn \<Rightarrow> (idf_calculator \<times> 'w) idf_fn" where
  "fallback_idf search term st = (case get_idf search term st of (v, st') \<Rightarrow> (Inr v, st'))"

definition searcher_raw :: "'w raw_fn \<Rightarrow> (idf_calculator \<times> 'w) raw_fn" where
  "searcher_raw raw_of d st =
     (case st of (calc, w) \<Rightarrow> (case raw_of d w of (r, w') \<Rightarrow> (r, calc, w')))"

section \<open>Reference formula and sample searcher\<close>

text \<open>
  The IDF formula in the words of the specification,
  \<open>ln ((totalDocumentCount + 1) / (documentFrequency + 1))\<close>, to compare with what
  \<^verbatim>\<open>get_idf\<close> computes.
\<close>

definition spec_idf :: "int \<Rightarrow> nat \<Rightarrow> real" where
  "spec_idf n df = ln (real_of_int (n + 1) / real (df + 1))"

text \<open>
  Every cached value is the formula at the calculator's document count and at some
  document frequency of at most 100.
\<close>

definition cache_wf :: "idf_calculator \<Rightarrow> bool" where
  "cache_wf calc = (\<forall>t v. term_cache calc t = Some v \<longrightarrow> (\<exists>df\<le>100. v = spec_idf (doc_count calc) df))"

text \<open>
  A searcher for the examples: three documents match every query, at most \<open>k\<close> are
  returned, and the second call made to it raises. The outside state counts the calls.
\<close>

definition sample_hits :: "hit list" where
  "sample_hits = [\<lparr>docid = ''d1'', score = 97 / 10\<rparr>, \<lparr>docid = ''d2'', score = 5\<rparr>,
                  \<lparr>docid = ''d3'', score = 1\<rparr>]"

definition flaky_search :: "nat search_fn" where
  "flaky_search q k n = (if n = 1 then Inl BackendError else Inr (take k sample_hits), Suc n)"

section \<open>Reference definitions for the worked example\<close>

text \<open>
  The polynomial \<open>\<Sum>k<10. x^k / k!\<close>, used to bound the exponential by rational numbers.
\<close>

definition exp_poly :: "real \<Rightarrow> real" where
  "exp_poly x = 1 + x + x^2 / 2 + x^3 / 6 + x^4 / 24 + x^5 / 120 + x^6 / 720 + x^7 / 5040
     + x^8 / 40320 + x^9 / 362880"

text \<open>
  The saturation curve and the score of the worked example in the words of the
  specification (sections 4.4 and 8): query \<open>cat dog\<close>, term counts 3 and 2, length 100,
  mean frequency 2.5, IDF 2.0 and 1.5, \<open>alpha = 0.5\<close>.
\<close>

definition spec_saturation :: "real \<Rightarrow> real \<Rightarrow> real \<Rightarrow> real" where
  "spec_saturation x tau lam =
     (if 0 < x \<and> x < tau / 2 then (1 - exp (- lam * x)) / (1 - exp (- lam * tau))
      else if x \<le> tau then x / tau
      else 0)"

definition spec_example_score :: real where
  "spec_example_score =
     2 * (1 / 2 * spec_saturation (ln 4 / ln (7 / 2)) 6 (1 / 2)
          + (1 - 1 / 2) * spec_saturation (3 * ln 11) 65 (1 / 2))
     + 3 / 2 * (1 / 2 * spec_saturation (ln 3 / ln (7 / 2)) 6 (1 / 2)
          + (1 - 1 / 2) * spec_saturation (2 * ln 11) 65 (1 / 2))"

text \<open>A document of 100 words with three \<open>cat\<close> and two \<open>dog\<close>.\<close>

definition example_content :: string where
  "example_content =
     concat (replicate 3 ''cat '') @ concat (replicate 2 ''dog\<newline>'') @ concat (replicate 95 ''of '')"

section \<open>The saturation transform\<close>

text \<open>
  Where the exponential branch ends, at \<open>tau / 2\<close>, it has reached
  \<open>1 / (1 + exp (- lambda * tau / 2))\<close>, which is above one half.
\<close>

lemma exp_branch_limit_gt_half:
  fixes lam tau :: real
  assumes "0 < lam" "0 < tau"
  shows "(1 - exp (- lam * (tau / 2))) / (1 - exp (- lam * tau)) > 1 / 2"
proof -
  define u where "u = exp (- lam * (tau / 2))"
  have u0: "0 < u" by (simp add: u_def)
  have u1: "u < 1" using assms by (simp add: u_def)
  have sq: "u * u = exp (- lam * tau)"
    by (simp add: u_def flip: exp_add)
  have "1 - u * u = (1 - u) * (1 + u)" by (simp add: algebra_simps)
  then have "(1 - u) / (1 - u * u) = 1 / (1 + u)" using u1 by simp
  moreover have "1 / (1 + u) > 1 / 2" using u0 u1 by (simp add: field_simps)
  ultimately have "(1 - u) / (1 - u * u) > 1 / 2" by simp
  then have "(1 - u) / (1 - exp (- lam * tau)) > 1 / 2" by (simp only: sq)
  then show ?thesis by (simp only: u_def)
qed

text \<open>
  So the value at \<open>tau / 2\<close>, which the linear branch gives as one half, is not the limit
  from the left: the curve jumps there.
\<close>

lemma truncated_exp_score_not_continuous:
  fixes lam tau :: real
  assumes lam: "0 < lam" and tau: "0 < tau"
  shows "\<not> isCont (\<lambda>x. returned (truncated_exp_score x tau lam)) (tau / 2)"
proof
  let ?f = "\<lambda>x. returned (truncated_exp_score x tau lam)"
  let ?g = "\<lambda>x. (1 - exp (- lam * x)) / (1 - exp (- lam * tau))"
  assume cont: "isCont ?f (tau / 2)"
  have den: "1 - exp (- lam * tau) \<noteq> 0" using lam tau by simp
  have fa: "?f (tau / 2) = 1 / 2"
    using tau by (simp add: truncated_exp_score_def py_div_def returned_def)
  have "(?f \<longlongrightarrow> ?f (tau / 2)) (at_left (tau / 2))"
    using cont unfolding isCont_def by (rule filterlim_at_split [THEN iffD1, THEN conjunct1])
  then have f_lim: "(?f \<longlongrightarrow> 1 / 2) (at_left (tau / 2))" by (simp only: fa)
  have "isCont ?g (tau / 2)" using den by (intro continuous_intros)
  then have "(?g \<longlongrightarrow> ?g (tau / 2)) (at (tau / 2))" unfolding isCont_def .
  then have g_lim: "(?g \<longlongrightarrow> ?g (tau / 2)) (at_left (tau / 2))"
    by (rule filterlim_at_split [THEN iffD1, THEN conjunct1])
  have ev: "eventually (\<lambda>x. ?g x = ?f x) (at_left (tau / 2))"
  proof (rule eventually_at_leftI [of 0])
    show "0 < tau / 2" using tau by simp
  next
    fix x :: real assume "x \<in> {0<..<tau / 2}"
    then show "?g x = ?f x"
      using den by (simp add: truncated_exp_score_def py_div_def returned_def)
  qed
  have "(?f \<longlongrightarrow> ?g (tau / 2)) (at_left (tau / 2))"
    using g_lim ev by (rule Lim_transform_eventually)
  then have "?g (tau / 2) = 1 / 2"
    using f_lim by (intro tendsto_unique [OF trivial_limit_at_left_real])
  with exp_branch_limit_gt_half [OF lam tau] show False by linarith
qed

lemma truncated_exp_score_branches:
  fixes lam tau :: real
  assumes "0 < lam" "0 < tau"
  shows "0 < x \<and> x < tau / 2 \<Longrightarrow>
           truncated_exp_score x tau lam = Inr ((1 - exp (- lam * x)) / (1 - exp (- lam * tau)))"
    and "\<not> (0 < x \<and> x < tau / 2) \<Longrightarrow> x \<le> tau \<Longrightarrow> truncated_exp_score x tau lam = Inr (x / tau)"
    and "tau < x \<Longrightarrow> truncated_exp_score x tau lam = Inr 0"
  using assms by (auto simp add: truncated_exp_score_def py_div_def)

text \<open>
  Claim C1. With the two parameter sets of the program, \<open>(tau_x, lambda_exp) = (6, 0.5)\<close>
  and \<open>(tau_y, lambda_exp) = (65, 0.5)\<close>, and for every \<open>x \<ge> 0\<close>,
  \<^verbatim>\<open>truncated_exp_score\<close> returns \<open>(1 - exp (- lambda * x)) / (1 - exp (- lambda * tau))\<close>
  when \<open>0 < x < tau / 2\<close>, returns \<open>x / tau\<close> when \<open>tau / 2 \<le> x \<le> tau\<close>, and
  returns 0 when \<open>x > tau\<close>, never 1 above \<open>tau\<close>. At \<open>x = tau / 2\<close> the two branches
  do not meet (the exponential expression is not \<open>(tau / 2) / tau\<close> there) and the
  returned value, as a function of \<open>x\<close>, is not continuous.
\<close>

theorem truncated_exp_score_fixed_parameters:
  "0 \<le> x \<Longrightarrow> tau = tau_x \<or> tau = tau_y \<Longrightarrow>
     (0 < x \<and> x < tau / 2 \<longrightarrow>
        truncated_exp_score x tau lambda_exp =
          Inr ((1 - exp (- lambda_exp * x)) / (1 - exp (- lambda_exp * tau)))) \<and>
     (tau / 2 \<le> x \<and> x \<le> tau \<longrightarrow> truncated_exp_score x tau lambda_exp = Inr (x / tau)) \<and>
     (tau < x \<longrightarrow> truncated_exp_score x tau lambda_exp = Inr 0 \<and>
        truncated_exp_score x tau lambda_exp \<noteq> Inr 1) \<and>
     (1 - exp (- lambda_exp * (tau / 2))) / (1 - exp (- lambda_exp * tau)) \<noteq> (tau / 2) / tau \<and>
     \<not> isCont (\<lambda>y. returned (truncated_exp_score y tau lambda_exp)) (tau / 2)"
proof -
  assume "0 \<le> x" and "tau = tau_x \<or> tau = tau_y"
  then have tau: "0 < tau" by (auto simp: tau_x_def tau_y_def)
  have lam: "0 < lambda_exp" by (simp add: lambda_exp_def)
  have "(tau / 2) / tau = 1 / 2" using tau by simp
  with exp_branch_limit_gt_half [OF lam tau]
  have meet: "(1 - exp (- lambda_exp * (tau / 2))) / (1 - exp (- lambda_exp * tau)) \<noteq> (tau / 2) / tau"
    by linarith
  show ?thesis
    using truncated_exp_score_branches [OF lam tau, of x]
      truncated_exp_score_not_continuous [OF lam tau] meet
    by auto
qed

theorem truncated_exp_score_fixed_parameters_witness:
  "truncated_exp_score 1 tau_x lambda_exp = Inr ((1 - exp (- lambda_exp * 1)) / (1 - exp (- lambda_exp * tau_x))) \<and>
   truncated_exp_score 3 tau_x lambda_exp = Inr (3 / tau_x) \<and>
   truncated_exp_score 7 tau_x lambda_exp = Inr 0 \<and>
   truncated_exp_score 32 tau_y lambda_exp = Inr ((1 - exp (- lambda_exp * 32)) / (1 - exp (- lambda_exp * tau_y))) \<and>
   truncated_exp_score 65 tau_y lambda_exp = Inr (65 / tau_y) \<and>
   truncated_exp_score 66 tau_y lambda_exp = Inr 0 \<and>
   \<not> isCont (\<lambda>y. returned (truncated_exp_score y tau_x lambda_exp)) (tau_x / 2) \<and>
   \<not> isCont (\<lambda>y. returned (truncated_exp_score y tau_y lambda_exp)) (tau_y / 2)"
  using truncated_exp_score_fixed_parameters [of 1 tau_x]
    truncated_exp_score_fixed_parameters [of 3 tau_x]
    truncated_exp_score_fixed_parameters [of 7 tau_x]
    truncated_exp_score_fixed_parameters [of 32 tau_y]
    truncated_exp_score_fixed_parameters [of 65 tau_y]
    truncated_exp_score_fixed_parameters [of 66 tau_y]
  by (simp add: tau_x_def tau_y_def)

text \<open>
  Claim C6. For every \<open>tau > 0\<close> and every \<open>lambda\<close>, \<^verbatim>\<open>truncated_exp_score\<close>
  returns 0 at \<open>x = 0\<close> and returns 1 at \<open>x = tau\<close>.
\<close>

theorem truncated_exp_score_endpoints:
  "0 < tau \<Longrightarrow>
     truncated_exp_score 0 tau lambda = Inr 0 \<and> truncated_exp_score tau tau lambda = Inr 1"
  by (simp add: truncated_exp_score_def py_div_def)

theorem truncated_exp_score_endpoints_witness:
  "(0::real) < 6 \<and> truncated_exp_score 0 6 (1 / 2) = Inr 0 \<and> truncated_exp_score 6 6 (1 / 2) = Inr 1"
  using truncated_exp_score_endpoints [of 6 "1 / 2"] by simp

section \<open>The topic file parser on incomplete records\<close>

text \<open>
  Claim C3. At the record-end marker the parser emits a pair and resets both fields when
  both are captured, and otherwise is to drop the partial record, so that a record with an
  identifier line and no title line contributes to no emitted pair. The code resets the two
  fields only when it emits. On the topic file below, the first record has the identifier
  1 and no title, the second has a title and no identifier: the identifier of the first
  record is still held at the second end marker and is emitted with the second record's
  title.
\<close>

theorem parse_fire_queries_keeps_identifier:
  "parse_fire_queries
     [''<top>\<newline>'', ''<num>1</num>\<newline>'', ''</top>\<newline>'',
      ''<top>\<newline>'', ''<title>foo\<newline>'', ''</top>\<newline>'']
   = [(''1'', ''foo'')]"
  by (simp add: parse_fire_queries_def parse_line_def py_strip_def startswith_def
      is_space_def truthy_def)

section \<open>The reranker: frequencies, mean frequency and the term loop\<close>

lemma tf_get_bump: "tf_get (bump m w) t = tf_get m t + (if w = t then 1 else 0)"
  by (simp add: tf_get_def bump_def)

lemma dom_bump: "dom (bump m w) = insert w (dom m)"
  by (simp add: bump_def)

lemma tf_get_fold_bump:
  "tf_get (fold (\<lambda>w m. bump m w) ws m) t = tf_get m t + count_list ws t"
  by (induction ws arbitrary: m) (simp_all add: tf_get_bump)

lemma dom_fold_bump: "dom (fold (\<lambda>w m. bump m w) ws m) = dom m \<union> set ws"
  by (induction ws arbitrary: m) (auto simp: dom_bump)

lemma tf_get_build_tf_map: "tf_get (build_tf_map ws) t = count_list ws t"
  by (simp add: build_tf_map_def tf_get_fold_bump) (simp add: tf_get_def)

lemma dom_build_tf_map: "dom (build_tf_map ws) = set ws"
  by (simp add: build_tf_map_def dom_fold_bump)

lemma compute_mean_tf_closed:
  "compute_mean_tf (build_tf_map ws) qs =
     Inr (if \<exists>t \<in> set qs. t \<in> set ws
          then real (\<Sum>t\<leftarrow>filter (\<lambda>t. t \<in> set ws) qs. count_list ws t) / real (length qs)
          else 0)"
proof (cases "filter (\<lambda>t. t \<in> set ws) qs = []")
  case True
  then have "\<not> (\<exists>t \<in> set qs. t \<in> set ws)" by (auto simp: filter_empty_conv)
  with True show ?thesis by (simp add: compute_mean_tf_def dom_build_tf_map)
next
  case False
  then have ex: "\<exists>t \<in> set qs. t \<in> set ws" by (auto simp: filter_empty_conv)
  then have "qs \<noteq> []" by auto
  then have len: "real (length qs) \<noteq> 0" by simp
  have "tf_get (build_tf_map ws) = count_list ws"
    by (rule ext) (rule tf_get_build_tf_map)
  with False ex len show ?thesis
    by (simp add: compute_mean_tf_def dom_build_tf_map py_div_def)
qed

lemma score_terms_filter:
  "score_terms idf_of tf_map doc_len mean_tf qs sc s =
   score_terms idf_of tf_map doc_len mean_tf (filter (\<lambda>t. tf_get tf_map t \<noteq> 0) qs) sc s"
  by (induction qs arbitrary: sc s) (auto split: sum.splits prod.splits)

lemma score_terms_cong_idf:
  "(\<And>t. tf_get tf_map t \<noteq> 0 \<Longrightarrow> idf_of t = idf_of' t) \<Longrightarrow>
   score_terms idf_of tf_map doc_len mean_tf qs sc s =
   score_terms idf_of' tf_map doc_len mean_tf qs sc s"
proof (induction qs arbitrary: sc s)
  case Nil
  show ?case by simp
next
  case (Cons t ts)
  show ?case
  proof (cases "tf_get tf_map t = 0")
    case True
    then show ?thesis using Cons.IH [OF Cons.prems] by simp
  next
    case False
    then have "idf_of t = idf_of' t" by (rule Cons.prems)
    then show ?thesis using Cons.IH [OF Cons.prems]
      by (simp add: Let_def split: sum.splits prod.splits)
  qed
qed

lemma score_terms_all_zero:
  "(\<And>t. t \<in> set qs \<Longrightarrow> tf_get tf_map t = 0) \<Longrightarrow>
   score_terms idf_of tf_map doc_len mean_tf qs sc s = (Inr sc, s)"
  by (induction qs arbitrary: sc s) auto

section \<open>The reranker: the loop over the hits and the sort\<close>

lemma py_split_Nil: "py_split [] = []" by (simp add: py_split_def)

lemma score_hits_append:
  "score_hits raw_of idf_of query (xs @ ys) s =
     (case score_hits raw_of idf_of query xs s of
        (a, s') \<Rightarrow> (case score_hits raw_of idf_of query ys s' of (b, s'') \<Rightarrow> (a @ b, s'')))"
  by (induction xs arbitrary: s) (auto split: sum.splits prod.splits)

lemma score_hits_subseq:
  "subseq (map fst (fst (score_hits raw_of idf_of query hits s))) (map docid hits)"
proof (induction hits arbitrary: s)
  case Nil
  show ?case by simp
next
  case (Cons h hs)
  obtain r s' where doc: "score_document raw_of idf_of query h s = (r, s')"
    by (cases "score_document raw_of idf_of query h s")
  obtain rest s'' where tl: "score_hits raw_of idf_of query hs s' = (rest, s'')"
    by (cases "score_hits raw_of idf_of query hs s'")
  have "subseq (map fst rest) (map docid hs)" using Cons.IH [of s'] tl by simp
  then show ?case using doc tl by (cases r) auto
qed

lemma sort_reverse_sorted: "sorted_wrt (\<lambda>a b. snd a \<ge> snd b) (sort_reverse xs)"
proof -
  have "sorted (map snd (sort_key snd (rev xs)))" by simp
  then have "sorted_wrt (\<lambda>a b. snd a \<le> snd b) (sort_key snd (rev xs))"
    by (simp add: sorted_map)
  then show ?thesis by (simp add: sort_reverse_def sorted_wrt_rev)
qed

lemma sort_reverse_stable:
  "filter (\<lambda>p. snd p = k) (sort_reverse xs) = filter (\<lambda>p. snd p = k) xs"
  by (simp add: sort_reverse_def sort_key_stable flip: rev_filter)

lemma set_sort_reverse: "set (sort_reverse xs) = set xs"
  by (simp add: sort_reverse_def)

lemma length_sort_reverse: "length (sort_reverse xs) = length xs"
  by (simp add: sort_reverse_def)

lemma score_document_unfold:
  assumes "raw_of (docid h) s = (Inr raw, s1)"
    and "doc_words = py_split (case raw of None \<Rightarrow> [] | Some text \<Rightarrow> text)"
  shows "score_document raw_of idf_of query h s =
     (case compute_mean_tf (build_tf_map doc_words) (py_split query) of
        Inl e \<Rightarrow> (Inl e, s1)
      | Inr mean_tf \<Rightarrow>
          score_terms idf_of (build_tf_map doc_words) (length doc_words) mean_tf (py_split query) 0 s1)"
  using assms(1) unfolding assms(2) score_document_def by (simp add: Let_def)

text \<open>
  Claim C4. The mean query-term frequency \<open>M\<close> of a document is computed once, before
  the loop over the query terms, and the loop uses that one value for every term. It is
  the sum, over the tokens of the whitespace-split query that occur in the document
  (a repeated token is counted each time), of the token's number of occurrences in the
  document, divided by the number of all query tokens, those absent from the document
  included; it is 0 when no query token occurs in the document.
\<close>

theorem mean_tf_once_per_document:
  "raw_of (docid h) s = (Inr raw, s1) \<Longrightarrow>
   doc_words = py_split (case raw of None \<Rightarrow> [] | Some text \<Rightarrow> text) \<Longrightarrow>
   qs = py_split query \<Longrightarrow>
   M = (if \<exists>t \<in> set qs. t \<in> set doc_words
        then real (\<Sum>t\<leftarrow>filter (\<lambda>t. t \<in> set doc_words) qs. count_list doc_words t) / real (length qs)
        else 0) \<Longrightarrow>
   compute_mean_tf (build_tf_map doc_words) qs = Inr M \<and>
   score_document raw_of idf_of query h s =
     score_terms idf_of (build_tf_map doc_words) (length doc_words) M qs 0 s1"
proof -
  assume raw: "raw_of (docid h) s = (Inr raw, s1)"
    and dw: "doc_words = py_split (case raw of None \<Rightarrow> [] | Some text \<Rightarrow> text)"
    and qs: "qs = py_split query"
    and M: "M = (if \<exists>t \<in> set qs. t \<in> set doc_words
        then real (\<Sum>t\<leftarrow>filter (\<lambda>t. t \<in> set doc_words) qs. count_list doc_words t) / real (length qs)
        else 0)"
  have mean: "compute_mean_tf (build_tf_map doc_words) qs = Inr M"
    unfolding M by (rule compute_mean_tf_closed)
  moreover have "score_document raw_of idf_of query h s =
     (case compute_mean_tf (build_tf_map doc_words) (py_split query) of
        Inl e \<Rightarrow> (Inl e, s1)
      | Inr mean_tf \<Rightarrow>
          score_terms idf_of (build_tf_map doc_words) (length doc_words) mean_tf (py_split query) 0 s1)"
    using raw dw by (rule score_document_unfold)
  ultimately show ?thesis by (simp add: qs)
qed

theorem mean_tf_once_per_document_witness:
  "compute_mean_tf (build_tf_map [''cat'', ''cat'', ''dog'']) [''cat'', ''bird''] = Inr 1 \<and>
   score_document (\<lambda>d s. (Inr (Some ''cat cat dog''), s)) (\<lambda>t s. (Inr 2, s)) ''cat bird''
       \<lparr>docid = ''d1'', score = 7\<rparr> () =
     score_terms (\<lambda>t s. (Inr 2, s)) (build_tf_map [''cat'', ''cat'', ''dog''])
       (length [''cat'', ''cat'', ''dog'']) 1 [''cat'', ''bird''] 0 ()"
  using mean_tf_once_per_document [of "\<lambda>d s. (Inr (Some ''cat cat dog''), s)"
      "\<lparr>docid = ''d1'', score = 7\<rparr>" "()" "Some ''cat cat dog''" "()"
      "[''cat'', ''cat'', ''dog'']" "[''cat'', ''bird'']" "''cat bird''" 1 "\<lambda>t s. (Inr 2, s)"]
  by (simp add: py_split_def is_space_def del: score_terms.simps)

text \<open>
  Claim C5. A query term whose frequency in the document is 0 adds nothing to the score
  and causes no IDF lookup: the loop steps over it with the score and the state
  unchanged, the whole loop is the loop over the terms that occur in the document, and the
  result (score, exception and state) does not depend on what the IDF provider would
  return, change or raise for a term that does not occur in the document.
\<close>

theorem zero_frequency_terms_untouched:
  "tf_map = build_tf_map doc_words \<Longrightarrow>
   (count_list doc_words t = 0 \<longrightarrow>
      score_terms idf_of tf_map doc_len mean_tf (t # ts) sc s =
      score_terms idf_of tf_map doc_len mean_tf ts sc s) \<and>
   score_terms idf_of tf_map doc_len mean_tf qs sc s =
     score_terms idf_of tf_map doc_len mean_tf (filter (\<lambda>t. count_list doc_words t \<noteq> 0) qs) sc s \<and>
   ((\<forall>t. count_list doc_words t \<noteq> 0 \<longrightarrow> idf_of t = idf_of' t) \<longrightarrow>
      score_terms idf_of tf_map doc_len mean_tf qs sc s =
      score_terms idf_of' tf_map doc_len mean_tf qs sc s)"
proof -
  assume tf_map: "tf_map = build_tf_map doc_words"
  then have get: "tf_get tf_map = count_list doc_words"
    by (auto simp: tf_get_build_tf_map)
  have "score_terms idf_of tf_map doc_len mean_tf qs sc s =
     score_terms idf_of tf_map doc_len mean_tf (filter (\<lambda>t. count_list doc_words t \<noteq> 0) qs) sc s"
    using score_terms_filter [of idf_of tf_map doc_len mean_tf qs sc s] by (simp add: get)
  moreover have "(\<forall>t. count_list doc_words t \<noteq> 0 \<longrightarrow> idf_of t = idf_of' t) \<longrightarrow>
      score_terms idf_of tf_map doc_len mean_tf qs sc s =
      score_terms idf_of' tf_map doc_len mean_tf qs sc s"
    using score_terms_cong_idf [of tf_map idf_of idf_of' doc_len mean_tf qs sc s]
    by (simp add: get)
  ultimately show ?thesis by (simp add: get)
qed

theorem zero_frequency_terms_untouched_witness:
  "score_terms (\<lambda>t n. (Inr 5, Suc n)) (build_tf_map [''cat'']) 1 0 [''dog'', ''bird''] 0 (0::nat)
     = (Inr 0, 0) \<and>
   score_terms (\<lambda>t n. (Inr 5, Suc n)) (build_tf_map [''cat'']) 1 0 [''dog'', ''bird''] 0 (0::nat)
     = score_terms (\<lambda>t n. (Inl BackendError, Suc n)) (build_tf_map [''cat'']) 1 0 [''dog'', ''bird''] 0 0"
  using zero_frequency_terms_untouched [of "build_tf_map [''cat'']" "[''cat'']" "''dog''"
      "\<lambda>t n. (Inr 5, Suc n)" 1 0 "[''bird'']" 0 "0::nat" "[''dog'', ''bird'']"
      "\<lambda>t n. (Inl BackendError, Suc n)"]
  by (simp add: tf_get_build_tf_map)

lemma score_document_no_content:
  assumes "raw_of (docid h) s = (Inr None, s1)"
  shows "score_document raw_of idf_of query h s = (Inr 0, s1)"
proof -
  have "compute_mean_tf (build_tf_map []) (py_split query) = Inr 0"
    by (simp add: compute_mean_tf_def dom_build_tf_map)
  moreover have "score_terms idf_of (build_tf_map []) 0 0 (py_split query) 0 s1 = (Inr 0, s1)"
    by (rule score_terms_all_zero) (simp add: tf_get_build_tf_map)
  ultimately show ?thesis
    using assms by (simp add: score_document_def py_split_Nil)
qed

lemma score_document_raises:
  assumes "raw_of (docid h) s = (Inl e, s1)"
  shows "score_document raw_of idf_of query h s = (Inl e, s1)"
  using assms by (simp add: score_document_def)

lemma score_hits_middle:
  assumes "snd (score_hits raw_of idf_of query pre s) = s0"
  shows "fst (score_hits raw_of idf_of query (pre @ h # post) s) =
     fst (score_hits raw_of idf_of query pre s) @
     (case score_document raw_of idf_of query h s0 of
        (Inl e, s') \<Rightarrow> fst (score_hits raw_of idf_of query post s')
      | (Inr sc, s') \<Rightarrow> (docid h, sc) # fst (score_hits raw_of idf_of query post s'))"
proof -
  obtain a where "score_hits raw_of idf_of query pre s = (a, s0)"
    using assms by (cases "score_hits raw_of idf_of query pre s") auto
  then show ?thesis
    by (auto simp add: score_hits_append split: prod.splits sum.splits)
qed

lemma fst_rerank:
  "fst (rerank raw_of idf_of query hits s) = sort_reverse (fst (score_hits raw_of idf_of query hits s))"
  by (simp add: rerank_def split: prod.splits)

text \<open>
  Claim C10. When \<^verbatim>\<open>raw()\<close> returns \<^verbatim>\<open>None\<close> for a candidate, the document is scored
  as the empty text: the score is 0 and the state is the one the lookup left, the
  pair \<open>(docid, 0)\<close> is appended to \<^verbatim>\<open>doc_scores\<close> at the candidate's place and is in
  the list \<^verbatim>\<open>rerank\<close> returns. A candidate whose lookup raises is left out instead.
\<close>

theorem no_content_document_is_kept:
  "snd (score_hits raw_of idf_of query pre s) = s0 \<Longrightarrow>
   (raw_of (docid h) s0 = (Inr None, s1) \<longrightarrow>
      score_document raw_of idf_of query h s0 = (Inr 0, s1) \<and>
      fst (score_hits raw_of idf_of query (pre @ h # post) s) =
        fst (score_hits raw_of idf_of query pre s) @
        (docid h, 0) # fst (score_hits raw_of idf_of query post s1) \<and>
      (docid h, 0) \<in> set (fst (rerank raw_of idf_of query (pre @ h # post) s))) \<and>
   (raw_of (docid h) s0 = (Inl e, s1) \<longrightarrow>
      fst (score_hits raw_of idf_of query (pre @ h # post) s) =
        fst (score_hits raw_of idf_of query pre s) @
        fst (score_hits raw_of idf_of query post s1))"
proof -
  assume pre: "snd (score_hits raw_of idf_of query pre s) = s0"
  note mid = score_hits_middle [OF pre, of h post]
  have doc: "score_document raw_of idf_of query h s0 = (Inr 0, s1)"
    if "raw_of (docid h) s0 = (Inr None, s1)"
    using that by (rule score_document_no_content)
  have exc: "score_document raw_of idf_of query h s0 = (Inl e, s1)"
    if "raw_of (docid h) s0 = (Inl e, s1)"
    using that by (rule score_document_raises)
  have none: "fst (score_hits raw_of idf_of query (pre @ h # post) s) =
        fst (score_hits raw_of idf_of query pre s) @
        (docid h, 0) # fst (score_hits raw_of idf_of query post s1)"
    if "raw_of (docid h) s0 = (Inr None, s1)"
    using mid doc [OF that] by simp
  have "(docid h, 0) \<in> set (fst (rerank raw_of idf_of query (pre @ h # post) s))"
    if "raw_of (docid h) s0 = (Inr None, s1)"
    using none [OF that] by (simp add: fst_rerank set_sort_reverse)
  moreover have "fst (score_hits raw_of idf_of query (pre @ h # post) s) =
        fst (score_hits raw_of idf_of query pre s) @
        fst (score_hits raw_of idf_of query post s1)"
    if "raw_of (docid h) s0 = (Inl e, s1)"
    using mid exc [OF that] by simp
  ultimately show ?thesis
    using none doc by blast
qed

theorem no_content_document_is_kept_witness:
  "fst (rerank (\<lambda>d s. (if d = ''d2'' then Inr None else Inl BackendError, s)) (\<lambda>t s. (Inr 2, s))
       ''cat'' [\<lparr>docid = ''d1'', score = 9\<rparr>, \<lparr>docid = ''d2'', score = 8\<rparr>] ())
   = [(''d2'', 0)]"
  using no_content_document_is_kept [of "\<lambda>d s. (if d = ''d2'' then Inr None else Inl BackendError, s)"
      "\<lambda>t s. (Inr 2, s)" "''cat''" "[\<lparr>docid = ''d1'', score = 9\<rparr>]" "()" "()"
      "\<lparr>docid = ''d2'', score = 8\<rparr>" "()" "[]" BackendError]
    no_content_document_is_kept [of "\<lambda>d s. (if d = ''d2'' then Inr None else Inl BackendError, s)"
      "\<lambda>t s. (Inr 2, s)" "''cat''" "[]" "()" "()"
      "\<lparr>docid = ''d1'', score = 9\<rparr>" "()" "[\<lparr>docid = ''d2'', score = 8\<rparr>]" BackendError]
  by (simp add: rerank_def sort_reverse_def score_document_def split: prod.splits)

text \<open>
  Claim C7. The list \<^verbatim>\<open>rerank\<close> returns is ordered by score, highest first, and the
  sort is stable: for every score \<open>k\<close>, the documents with score \<open>k\<close> appear in the
  output in the order they have in \<^verbatim>\<open>doc_scores\<close>, which lists the candidates that were
  kept in the order of the baseline hits.
\<close>

theorem rerank_sorted_stable:
  "sorted_wrt (\<lambda>a b. snd a \<ge> snd b) (fst (rerank raw_of idf_of query hits s)) \<and>
   (\<forall>k. filter (\<lambda>p. snd p = k) (fst (rerank raw_of idf_of query hits s)) =
        filter (\<lambda>p. snd p = k) (fst (score_hits raw_of idf_of query hits s))) \<and>
   subseq (map fst (fst (score_hits raw_of idf_of query hits s))) (map docid hits)"
  by (simp add: fst_rerank sort_reverse_sorted sort_reverse_stable score_hits_subseq)

theorem rerank_sorted_stable_witness:
  "fst (rerank (\<lambda>d s. (Inr None, s)) (\<lambda>t s. (Inr 2, s)) ''cat''
       [\<lparr>docid = ''d1'', score = 9\<rparr>, \<lparr>docid = ''d2'', score = 8\<rparr>, \<lparr>docid = ''d3'', score = 7\<rparr>] ())
   = [(''d1'', 0), (''d2'', 0), (''d3'', 0)]"
  using rerank_sorted_stable [of "\<lambda>d s. (Inr None, s)" "\<lambda>t s. (Inr 2, s)" "''cat''"
      "[\<lparr>docid = ''d1'', score = 9\<rparr>, \<lparr>docid = ''d2'', score = 8\<rparr>, \<lparr>docid = ''d3'', score = 7\<rparr>]" "()"]
  by (simp add: score_document_no_content rerank_def sort_reverse_def)

lemma sort_reverse_example:
  "sort_reverse [(''a'', 1), (''b'', 2), (''c'', 1), (''d'', 3), (''e'', 2)] =
     [(''d'', 3), (''b'', 2), (''e'', 2), (''a'', 1), (''c'', 1)]"
  by (simp add: sort_reverse_def)

section \<open>The fallback IDF calculator: values and cache\<close>

lemma get_idf_cached:
  "term_cache calc term = Some v \<Longrightarrow> get_idf search term (calc, w) = (v, calc, w)"
  by (simp add: get_idf_def)

lemma get_idf_search_fails:
  "term_cache calc term = None \<Longrightarrow> search term 100 w = (Inl e, w') \<Longrightarrow>
   get_idf search term (calc, w) = (0, calc, w')"
  by (simp add: get_idf_def)

lemma get_idf_computes:
  "term_cache calc term = None \<Longrightarrow> search term 100 w = (Inr hits, w') \<Longrightarrow>
   get_idf search term (calc, w) =
     (if 0 < doc_count calc + 1
      then (spec_idf (doc_count calc) (length hits),
            calc\<lparr>term_cache := (term_cache calc)(term \<mapsto> spec_idf (doc_count calc) (length hits))\<rparr>, w')
      else (0, calc, w'))"
  by (simp add: get_idf_def py_div_def py_log_def spec_idf_def Let_def zero_less_divide_iff
      divide_le_0_iff)

lemma get_idf_cases:
  obtains (cached) v where "term_cache calc term = Some v" "get_idf search term (calc, w) = (v, calc, w)"
  | (failed) w' where "term_cache calc term = None" "get_idf search term (calc, w) = (0, calc, w')"
  | (stored) hits w' where "term_cache calc term = None" "search term 100 w = (Inr hits, w')"
      "0 < doc_count calc + 1"
      "get_idf search term (calc, w) =
         (spec_idf (doc_count calc) (length hits),
          calc\<lparr>term_cache := (term_cache calc)(term \<mapsto> spec_idf (doc_count calc) (length hits))\<rparr>, w')"
proof (cases "term_cache calc term")
  case (Some v)
  show ?thesis by (rule cached [OF Some]) (simp add: get_idf_def Some)
next
  case None
  obtain r w' where s: "search term 100 w = (r, w')" by (cases "search term 100 w")
  show ?thesis
  proof (cases r)
    case (Inl e)
    with s have s': "search term 100 w = (Inl e, w')" by simp
    show ?thesis by (rule failed [OF None]) (simp add: get_idf_def None s')
  next
    case (Inr hits)
    with s have s': "search term 100 w = (Inr hits, w')" by simp
    note comp = get_idf_computes [where search = search, OF None s']
    show ?thesis
    proof (cases "0 < doc_count calc + 1")
      case True
      show ?thesis by (rule stored [OF None s' True]) (use True in \<open>simp add: comp\<close>)
    next
      case False
      show ?thesis by (rule failed [OF None, of w']) (use False in \<open>simp add: comp\<close>)
    qed
  qed
qed

lemma get_idf_cache_grows:
  assumes "get_idf search term (calc, w) = (v, calc', w')"
  shows "term_cache calc \<subseteq>\<^sub>m term_cache calc' \<and> doc_count calc' = doc_count calc"
proof (rule get_idf_cases [of calc "term" search w])
  fix x assume "term_cache calc term = Some x" "get_idf search term (calc, w) = (x, calc, w)"
  with assms show ?thesis by simp
next
  fix w1 assume "term_cache calc term = None" "get_idf search term (calc, w) = (0, calc, w1)"
  with assms show ?thesis by simp
next
  fix hits w1
  assume "term_cache calc term = None"
    and "get_idf search term (calc, w) =
         (spec_idf (doc_count calc) (length hits),
          calc\<lparr>term_cache := (term_cache calc)(term \<mapsto> spec_idf (doc_count calc) (length hits))\<rparr>, w1)"
  with assms show ?thesis by (auto simp: map_le_def)
qed

lemma get_idfs_cache_grows:
  "get_idfs search ts (calc, w) = (vs, calc', w') \<Longrightarrow>
   term_cache calc \<subseteq>\<^sub>m term_cache calc' \<and> doc_count calc' = doc_count calc"
proof (induction ts arbitrary: calc w vs)
  case Nil
  then show ?case by simp
next
  case (Cons t ts)
  obtain v c1 w1 where one: "get_idf search t (calc, w) = (v, c1, w1)"
    by (cases "get_idf search t (calc, w)")
  obtain vs' where rest: "get_idfs search ts (c1, w1) = (vs', calc', w')"
    using Cons.prems one by (auto split: prod.splits)
  from get_idf_cache_grows [OF one] Cons.IH [OF rest] show ?case
    by (auto intro: map_le_trans)
qed

lemma new_calculator_fields:
  assumes "new_calculator search w0 = (calc0, w1)"
  shows "doc_count calc0 =
           (case fst (search ''the'' 1 w0) of
              Inl e \<Rightarrow> 1000000
            | Inr hits \<Rightarrow> (case hits of [] \<Rightarrow> 1000000 | h # rest \<Rightarrow> py_int (score h)))"
    and "term_cache calc0 = Map.empty"
  using assms
  by (auto simp: new_calculator_def estimate_doc_count_def
      split: prod.splits sum.splits list.splits)

lemma get_idf_wf:
  assumes cap: "\<forall>q k w hits w'. search q k w = (Inr hits, w') \<longrightarrow> length hits \<le> k"
    and wf: "cache_wf calc"
    and run: "get_idf search term (calc, w) = (v, calc', w')"
  shows "cache_wf calc' \<and> (v = 0 \<or> (\<exists>df\<le>100. v = spec_idf (doc_count calc) df))"
proof (rule get_idf_cases [of calc "term" search w])
  fix x assume "term_cache calc term = Some x" "get_idf search term (calc, w) = (x, calc, w)"
  with run wf show ?thesis by (auto simp: cache_wf_def)
next
  fix w1 assume "term_cache calc term = None" "get_idf search term (calc, w) = (0, calc, w1)"
  with run wf show ?thesis by simp
next
  fix hits w1
  assume s: "search term 100 w = (Inr hits, w1)"
    and g: "get_idf search term (calc, w) =
         (spec_idf (doc_count calc) (length hits),
          calc\<lparr>term_cache := (term_cache calc)(term \<mapsto> spec_idf (doc_count calc) (length hits))\<rparr>, w1)"
  from cap s have "length hits \<le> 100" by blast
  with run g wf show ?thesis by (auto simp: cache_wf_def split: if_splits)
qed

lemma get_idfs_wf:
  assumes cap: "\<forall>q k w hits w'. search q k w = (Inr hits, w') \<longrightarrow> length hits \<le> k"
  shows "cache_wf calc \<Longrightarrow> get_idfs search ts (calc, w) = (vs, calc', w') \<Longrightarrow> cache_wf calc'"
proof (induction ts arbitrary: calc w vs)
  case Nil
  then show ?case by simp
next
  case (Cons t ts)
  obtain v c1 w1 where one: "get_idf search t (calc, w) = (v, c1, w1)"
    by (cases "get_idf search t (calc, w)")
  obtain vs' where rest: "get_idfs search ts (c1, w1) = (vs', calc', w')"
    using Cons.prems(2) one by (auto split: prod.splits)
  from get_idf_wf [OF cap Cons.prems(1) one] have "cache_wf c1" by simp
  then show ?case using rest by (rule Cons.IH)
qed

text \<open>
  Claim C8. The fallback calculator fixes its document count at construction: the integer
  part of the score of the top hit of the probe query, or 1000000 when the probe raises
  or returns nothing; lookups never change it. For a term that is not cached, the lookup
  issues one search capped at 100 results; if the search raises the lookup returns 0, and
  otherwise, with \<open>df\<close> the number of hits (at most 100 when the searcher respects the
  cap), it returns \<open>ln ((doc_count + 1) / (df + 1))\<close>, or 0 when the logarithm is not
  defined. After any sequence of lookups, every lookup returns 0 or the formula at some
  \<open>df \<le> 100\<close>. The lookup never raises: its result is a number.
\<close>

theorem fallback_idf_value:
  "(\<forall>q k w hits w'. search q k w = (Inr hits, w') \<longrightarrow> length hits \<le> k) \<Longrightarrow>
   new_calculator search w0 = (calc0, w1) \<Longrightarrow>
   get_idfs search ts (calc0, w1) = (vs, calc, w) \<Longrightarrow>
   doc_count calc0 =
     (case fst (search ''the'' 1 w0) of
        Inl e \<Rightarrow> 1000000
      | Inr hits \<Rightarrow> (case hits of [] \<Rightarrow> 1000000 | h # rest \<Rightarrow> py_int (score h))) \<and>
   doc_count calc = doc_count calc0 \<and>
   (term_cache calc term = None \<longrightarrow>
      (case search term 100 w of
         (Inl e, w') \<Rightarrow> get_idf search term (calc, w) = (0, calc, w')
       | (Inr hits, w') \<Rightarrow>
           length hits \<le> 100 \<and>
           fst (get_idf search term (calc, w)) =
             (if 0 < doc_count calc0 + 1
              then ln (real_of_int (doc_count calc0 + 1) / real (length hits + 1))
              else 0))) \<and>
   (fst (get_idf search term (calc, w)) = 0 \<or>
    (\<exists>df\<le>100. fst (get_idf search term (calc, w)) =
        ln (real_of_int (doc_count calc0 + 1) / real (df + 1))))"
proof -
  assume cap: "\<forall>q k w hits w'. search q k w = (Inr hits, w') \<longrightarrow> length hits \<le> k"
    and new: "new_calculator search w0 = (calc0, w1)"
    and run: "get_idfs search ts (calc0, w1) = (vs, calc, w)"
  note fields = new_calculator_fields [OF new]
  have count: "doc_count calc = doc_count calc0"
    using get_idfs_cache_grows [OF run] by simp
  have "cache_wf calc0" by (simp add: cache_wf_def fields(2))
  then have wf: "cache_wf calc" using run by (rule get_idfs_wf [OF cap])
  obtain v c2 w2 where one: "get_idf search term (calc, w) = (v, c2, w2)"
    by (cases "get_idf search term (calc, w)")
  have last: "fst (get_idf search term (calc, w)) = 0 \<or>
    (\<exists>df\<le>100. fst (get_idf search term (calc, w)) =
        ln (real_of_int (doc_count calc0 + 1) / real (df + 1)))"
    using get_idf_wf [OF cap wf one] one by (simp add: count spec_idf_def)
  have fresh: "case search term 100 w of
         (Inl e, w') \<Rightarrow> get_idf search term (calc, w) = (0, calc, w')
       | (Inr hits, w') \<Rightarrow>
           length hits \<le> 100 \<and>
           fst (get_idf search term (calc, w)) =
             (if 0 < doc_count calc0 + 1
              then ln (real_of_int (doc_count calc0 + 1) / real (length hits + 1))
              else 0)"
    if none: "term_cache calc term = None"
  proof (cases "search term 100 w")
    case (Pair r w')
    show ?thesis
    proof (cases r)
      case (Inl e)
      with Pair none show ?thesis by (simp add: get_idf_def)
    next
      case (Inr hits)
      with Pair have s: "search term 100 w = (Inr hits, w')" by simp
      from cap s have "length hits \<le> 100" by blast
      then show ?thesis
        using get_idf_computes [where search = search, OF none s] s
        by (simp add: count spec_idf_def)
    qed
  qed
  show ?thesis using fields(1) count fresh last by blast
qed

lemma flaky_search_cap:
  "\<forall>q k w hits w'. flaky_search q k w = (Inr hits, w') \<longrightarrow> length hits \<le> k"
  by (auto simp: flaky_search_def split: if_splits)

lemma new_calculator_flaky:
  "new_calculator flaky_search 0 = (\<lparr>doc_count = 9, term_cache = Map.empty\<rparr>, 1)"
  by (simp add: new_calculator_def estimate_doc_count_def flaky_search_def sample_hits_def
      py_int_def)

lemma get_idf_flaky_fails:
  "get_idf flaky_search t (\<lparr>doc_count = 9, term_cache = Map.empty\<rparr>, 1) =
     (0, \<lparr>doc_count = 9, term_cache = Map.empty\<rparr>, 2)"
  by (simp add: get_idf_def flaky_search_def)

theorem fallback_idf_value_witness:
  "doc_count (fst (new_calculator flaky_search 0)) = 9 \<and>
   get_idf flaky_search ''dog'' (\<lparr>doc_count = 9, term_cache = Map.empty\<rparr>, 1) =
     (0, \<lparr>doc_count = 9, term_cache = Map.empty\<rparr>, 2) \<and>
   fst (get_idf flaky_search ''cat'' (\<lparr>doc_count = 9, term_cache = Map.empty\<rparr>, 2)) = ln (10 / 4)"
  using fallback_idf_value [of flaky_search 0 "\<lparr>doc_count = 9, term_cache = Map.empty\<rparr>" 1
      "[''dog'']" "[0]" "\<lparr>doc_count = 9, term_cache = Map.empty\<rparr>" 2 "''cat''"]
    fallback_idf_value [of flaky_search 0 "\<lparr>doc_count = 9, term_cache = Map.empty\<rparr>" 1
      "[]" "[]" "\<lparr>doc_count = 9, term_cache = Map.empty\<rparr>" 1 "''dog''"]
  by (simp add: flaky_search_cap new_calculator_flaky get_idf_flaky_fails)
    (simp add: flaky_search_def sample_hits_def)

text \<open>
  Claim C9 says that a term is never looked up twice, also when the earlier lookup failed
  and returned 0. With the sample searcher, the first lookup of \<open>''cat''\<close> fails: it
  returns 0 and leaves the cache empty. The second lookup of the same term calls the
  searcher again (the outside state moves from 2 to 3), returns \<open>ln (5 / 2)\<close>, which is
  not 0, and only then stores a value.
\<close>

theorem failed_lookup_is_retried:
  "new_calculator flaky_search 0 = (\<lparr>doc_count = 9, term_cache = Map.empty\<rparr>, 1) \<and>
   get_idf flaky_search ''cat'' (\<lparr>doc_count = 9, term_cache = Map.empty\<rparr>, 1) =
     (0, \<lparr>doc_count = 9, term_cache = Map.empty\<rparr>, 2) \<and>
   get_idf flaky_search ''cat'' (\<lparr>doc_count = 9, term_cache = Map.empty\<rparr>, 2) =
     (ln (5 / 2), \<lparr>doc_count = 9, term_cache = [''cat'' \<mapsto> ln (5 / 2)]\<rparr>, 3) \<and>
   ln (5 / 2) \<noteq> (0::real)"
  by (simp add: new_calculator_flaky get_idf_flaky_fails)
    (simp add: get_idf_def flaky_search_def sample_hits_def py_div_def py_log_def)

text \<open>
  Claim C9, amended. Once a value is stored for a term, it stays stored through any
  sequence of lookups, and a lookup of that term returns it with the calculator and the
  outside state unchanged, so without a search. The cache only grows: every entry present
  before a sequence of lookups, or before one lookup, is present with the same value
  after it, and what a lookup stores for its term is the value it returns. A lookup whose
  search raises returns 0 and stores nothing, so the next lookup of that term searches
  again.
\<close>

theorem stored_idf_is_kept:
  "get_idfs search ts (calc, w) = (vs, calc', w') \<Longrightarrow>
   (term_cache calc t = Some v \<longrightarrow>
      term_cache calc' t = Some v \<and> get_idf search t (calc', w') = (v, calc', w')) \<and>
   term_cache calc \<subseteq>\<^sub>m term_cache calc' \<and>
   (\<forall>x c2 w2. get_idf search t (calc', w') = (x, c2, w2) \<longrightarrow>
      term_cache calc' \<subseteq>\<^sub>m term_cache c2 \<and>
      (term_cache c2 t = None \<or> term_cache c2 t = Some x)) \<and>
   (\<forall>e w2. term_cache calc' t = None \<longrightarrow> search t 100 w' = (Inl e, w2) \<longrightarrow>
      get_idf search t (calc', w') = (0, calc', w2))"
proof -
  assume run: "get_idfs search ts (calc, w) = (vs, calc', w')"
  note grows = get_idfs_cache_grows [OF run]
  have kept: "term_cache calc' t = Some v \<and> get_idf search t (calc', w') = (v, calc', w')"
    if "term_cache calc t = Some v"
  proof -
    from that grows have "term_cache calc' t = Some v"
      by (auto simp: map_le_def dom_def)
    then show ?thesis by (simp add: get_idf_def)
  qed
  have one: "term_cache calc' \<subseteq>\<^sub>m term_cache c2 \<and>
      (term_cache c2 t = None \<or> term_cache c2 t = Some x)"
    if g: "get_idf search t (calc', w') = (x, c2, w2)" for x c2 w2
  proof (rule get_idf_cases [of calc' t search w'])
    fix y assume "term_cache calc' t = Some y" "get_idf search t (calc', w') = (y, calc', w')"
    with g show ?thesis by auto
  next
    fix w3 assume "term_cache calc' t = None" "get_idf search t (calc', w') = (0, calc', w3)"
    with g show ?thesis by auto
  next
    fix hits w3
    assume "term_cache calc' t = None"
      and "get_idf search t (calc', w') =
         (spec_idf (doc_count calc') (length hits),
          calc'\<lparr>term_cache := (term_cache calc')(t \<mapsto> spec_idf (doc_count calc') (length hits))\<rparr>, w3)"
    with g show ?thesis by (auto simp: map_le_def)
  qed
  have fail: "get_idf search t (calc', w') = (0, calc', w2)"
    if "term_cache calc' t = None" "search t 100 w' = (Inl e, w2)" for e w2
    using that by (simp add: get_idf_def)
  show ?thesis using kept grows one fail by blast
qed

theorem stored_idf_is_kept_witness:
  "get_idf flaky_search ''cat'' (\<lparr>doc_count = 9, term_cache = [''cat'' \<mapsto> ln (5 / 2)]\<rparr>, 3) =
     (ln (5 / 2), \<lparr>doc_count = 9, term_cache = [''cat'' \<mapsto> ln (5 / 2)]\<rparr>, 3) \<and>
   get_idf flaky_search ''dog'' (\<lparr>doc_count = 9, term_cache = Map.empty\<rparr>, 1) =
     (0, \<lparr>doc_count = 9, term_cache = Map.empty\<rparr>, 2)"
  using stored_idf_is_kept [of flaky_search "[''cat'']"
      "\<lparr>doc_count = 9, term_cache = [''cat'' \<mapsto> ln (5 / 2)]\<rparr>" 3 "[ln (5 / 2)]"
      "\<lparr>doc_count = 9, term_cache = [''cat'' \<mapsto> ln (5 / 2)]\<rparr>" 3 "''cat''" "ln (5 / 2)"]
    stored_idf_is_kept [of flaky_search "[]" "\<lparr>doc_count = 9, term_cache = Map.empty\<rparr>" 1 "[]"
      "\<lparr>doc_count = 9, term_cache = Map.empty\<rparr>" 1 "''dog''" 0]
  by (simp add: get_idf_def flaky_search_def)

section \<open>Rational bounds for the worked example\<close>

lemma exp_poly_sum: "(\<Sum>m<10. x ^ m / fact m) = exp_poly x"
  by (simp add: exp_poly_def numeral_eq_Suc fact_reduce)

lemma exp_poly_bounds:
  fixes x :: real
  assumes "0 \<le> x" "x \<le> 1"
  shows "exp_poly x \<le> exp x" and "exp x \<le> exp_poly x + x ^ 10 / 1209600"
proof -
  obtain t where t: "\<bar>t\<bar> \<le> \<bar>x\<bar>"
    and e: "exp x = (\<Sum>m<10. x ^ m / fact m) + exp t / fact 10 * x ^ 10"
    using Maclaurin_exp_le [of x 10] by blast
  have f: "fact 10 = (3628800::real)" by (simp add: fact_numeral)
  have e': "exp x = exp_poly x + exp t / 3628800 * x ^ 10"
    using e by (simp only: exp_poly_sum f)
  have "0 \<le> exp t / 3628800 * x ^ 10" using assms by simp
  then show "exp_poly x \<le> exp x" using e' by linarith
  have "t \<le> 1" using t assms by linarith
  then have "exp t \<le> exp 1" by simp
  then have "exp t \<le> 3" using exp_le by linarith
  then have "exp t * x ^ 10 \<le> 3 * x ^ 10"
    using assms by (intro mult_right_mono) simp_all
  then have "exp t / 3628800 * x ^ 10 \<le> x ^ 10 / 1209600" by simp
  then show "exp x \<le> exp_poly x + x ^ 10 / 1209600" using e' by linarith
qed

lemma exp_le_numeral:
  fixes x :: real
  assumes "0 \<le> x" "x \<le> 1" "exp_poly x + x ^ 10 / 1209600 \<le> b"
  shows "exp x \<le> b"
  using exp_poly_bounds(2) [OF assms(1,2)] assms(3) by linarith

lemma exp_ge_numeral:
  fixes x :: real
  assumes "0 \<le> x" "x \<le> 1" "b \<le> exp_poly x"
  shows "b \<le> exp x"
  using exp_poly_bounds(1) [OF assms(1,2)] assms(3) by linarith

lemma ln_lower: "0 < a \<Longrightarrow> exp l \<le> a \<Longrightarrow> l \<le> ln a" for a :: real
  by (simp add: ln_ge_iff)

lemma ln_upper: "0 < a \<Longrightarrow> a \<le> exp u \<Longrightarrow> ln a \<le> u" for a :: real
  by (metis exp_gt_zero ln_exp ln_le_cancel_iff)

lemma ln_2_bounds: "693146 / 1000000 \<le> ln (2::real)" "ln (2::real) \<le> 693149 / 1000000"
proof -
  have "exp (693146 / 1000000 :: real) \<le> 2"
    by (rule exp_le_numeral) (simp_all add: exp_poly_def power_divide)
  then show "693146 / 1000000 \<le> ln (2::real)" by (intro ln_lower) simp_all
  have "(2::real) \<le> exp (693149 / 1000000)"
    by (rule exp_ge_numeral) (simp_all add: exp_poly_def power_divide)
  then show "ln (2::real) \<le> 693149 / 1000000" by (intro ln_upper) simp_all
qed

lemma ln_7_4_bounds: "559614 / 1000000 \<le> ln (7 / 4 :: real)" "ln (7 / 4 :: real) \<le> 559617 / 1000000"
proof -
  have "exp (559614 / 1000000 :: real) \<le> 7 / 4"
    by (rule exp_le_numeral) (simp_all add: exp_poly_def power_divide)
  then show "559614 / 1000000 \<le> ln (7 / 4 :: real)" by (intro ln_lower) simp_all
  have "(7 / 4 :: real) \<le> exp (559617 / 1000000)"
    by (rule exp_ge_numeral) (simp_all add: exp_poly_def power_divide)
  then show "ln (7 / 4 :: real) \<le> 559617 / 1000000" by (intro ln_upper) simp_all
qed

lemma ln_3_2_bounds: "405464 / 1000000 \<le> ln (3 / 2 :: real)" "ln (3 / 2 :: real) \<le> 405467 / 1000000"
proof -
  have "exp (405464 / 1000000 :: real) \<le> 3 / 2"
    by (rule exp_le_numeral) (simp_all add: exp_poly_def power_divide)
  then show "405464 / 1000000 \<le> ln (3 / 2 :: real)" by (intro ln_lower) simp_all
  have "(3 / 2 :: real) \<le> exp (405467 / 1000000)"
    by (rule exp_ge_numeral) (simp_all add: exp_poly_def power_divide)
  then show "ln (3 / 2 :: real) \<le> 405467 / 1000000" by (intro ln_upper) simp_all
qed

lemma ln_11_8_bounds: "318452 / 1000000 \<le> ln (11 / 8 :: real)" "ln (11 / 8 :: real) \<le> 318455 / 1000000"
proof -
  have "exp (318452 / 1000000 :: real) \<le> 11 / 8"
    by (rule exp_le_numeral) (simp_all add: exp_poly_def power_divide)
  then show "318452 / 1000000 \<le> ln (11 / 8 :: real)" by (intro ln_lower) simp_all
  have "(11 / 8 :: real) \<le> exp (318455 / 1000000)"
    by (rule exp_ge_numeral) (simp_all add: exp_poly_def power_divide)
  then show "ln (11 / 8 :: real) \<le> 318455 / 1000000" by (intro ln_upper) simp_all
qed

lemma ln_4_eq: "ln (4::real) = 2 * ln 2"
  using ln_mult [of "2::real" 2] by simp

lemma ln_7_2_eq: "ln (7 / 2 :: real) = ln (7 / 4) + ln 2"
  using ln_mult [of "7 / 4 :: real" 2] by simp

lemma ln_3_eq: "ln (3::real) = ln (3 / 2) + ln 2"
  using ln_mult [of "3 / 2 :: real" 2] by simp

lemma ln_11_eq: "ln (11::real) = ln (11 / 8) + 3 * ln 2"
proof -
  have "ln (11::real) = ln (11 / 8 * 8)" by simp
  also have "\<dots> = ln (11 / 8) + ln 8" by (subst ln_mult) simp_all
  also have "ln (8::real) = ln (2 ^ 3)" by simp
  also have "\<dots> = 3 * ln 2" by (subst ln_realpow) simp_all
  finally show ?thesis by simp
qed

lemma ln_11_bounds: "2397890 / 1000000 \<le> ln (11::real)" "ln (11::real) \<le> 2397902 / 1000000"
  using ln_2_bounds ln_11_8_bounds by (simp_all add: ln_11_eq)

lemma ln_7_2_pos: "0 < ln (7 / 2 :: real)"
  by simp

lemma X_cat_bounds:
  "110658 / 100000 \<le> ln 4 / ln (7 / 2 :: real)" "ln 4 / ln (7 / 2 :: real) \<le> 110660 / 100000"
proof -
  have "110658 / 100000 * ln (7 / 2 :: real) \<le> ln 4"
    unfolding ln_4_eq ln_7_2_eq using ln_2_bounds ln_7_4_bounds by argo
  then show "110658 / 100000 \<le> ln 4 / ln (7 / 2 :: real)"
    using ln_7_2_pos by (simp only: le_divide_eq) simp
  have "ln 4 \<le> 110660 / 100000 * ln (7 / 2 :: real)"
    unfolding ln_4_eq ln_7_2_eq using ln_2_bounds ln_7_4_bounds by argo
  then show "ln 4 / ln (7 / 2 :: real) \<le> 110660 / 100000"
    using ln_7_2_pos by (simp only: divide_le_eq) simp
qed

lemma X_dog_bounds:
  "87694 / 100000 \<le> ln 3 / ln (7 / 2 :: real)" "ln 3 / ln (7 / 2 :: real) \<le> 87696 / 100000"
proof -
  have "87694 / 100000 * ln (7 / 2 :: real) \<le> ln 3"
    unfolding ln_3_eq ln_7_2_eq using ln_2_bounds ln_7_4_bounds ln_3_2_bounds by argo
  then show "87694 / 100000 \<le> ln 3 / ln (7 / 2 :: real)"
    using ln_7_2_pos by (simp only: le_divide_eq) simp
  have "ln 3 \<le> 87696 / 100000 * ln (7 / 2 :: real)"
    unfolding ln_3_eq ln_7_2_eq using ln_2_bounds ln_7_4_bounds ln_3_2_bounds by argo
  then show "ln 3 / ln (7 / 2 :: real) \<le> 87696 / 100000"
    using ln_7_2_pos by (simp only: divide_le_eq) simp
qed

lemma exp_neg_half_bounds:
  fixes x :: real
  assumes "l \<le> x" "x \<le> u" "0 \<le> l" "u \<le> 2" "0 < a" "a \<le> exp_poly (l / 2)"
    "exp_poly (u / 2) + (u / 2) ^ 10 / 1209600 \<le> b"
  shows "1 / b \<le> exp (- (1 / 2) * x)" and "exp (- (1 / 2) * x) \<le> 1 / a"
proof -
  have "a \<le> exp (l / 2)" using assms by (intro exp_ge_numeral) simp_all
  also have "\<dots> \<le> exp (x / 2)" using assms by simp
  finally have lo: "a \<le> exp (x / 2)" .
  have "exp (x / 2) \<le> exp (u / 2)" using assms by simp
  also have "\<dots> \<le> b" using assms by (intro exp_le_numeral) simp_all
  finally have hi: "exp (x / 2) \<le> b" .
  have eq: "exp (- (1 / 2) * x) = 1 / exp (x / 2)"
    by (simp add: exp_minus inverse_eq_divide)
  show "1 / b \<le> exp (- (1 / 2) * x)"
    unfolding eq using hi by (intro frac_le) simp_all
  show "exp (- (1 / 2) * x) \<le> 1 / a"
    unfolding eq using lo assms(5) by (intro frac_le) simp_all
qed

lemma exp_neg_half_X_cat:
  "1000000 / 1738983 \<le> exp (- (1 / 2) * (ln 4 / ln (7 / 2 :: real)))"
  "exp (- (1 / 2) * (ln 4 / ln (7 / 2 :: real))) \<le> 1000000 / 1738964"
proof -
  note b = exp_neg_half_bounds [OF X_cat_bounds, of "1738964 / 1000000" "1738983 / 1000000"]
  have p: "(0::real) \<le> 110658 / 100000" "(110660 / 100000 :: real) \<le> 2" "(0::real) < 1738964 / 1000000"
    by simp_all
  have lo: "(1738964 / 1000000 :: real) \<le> exp_poly (110658 / 100000 / 2)"
    by (simp add: exp_poly_def power_divide)
  have hi: "exp_poly (110660 / 100000 / 2) + (110660 / 100000 / 2) ^ 10 / 1209600
      \<le> (1738983 / 1000000 :: real)"
    by (simp add: exp_poly_def power_divide)
  show "1000000 / 1738983 \<le> exp (- (1 / 2) * (ln 4 / ln (7 / 2 :: real)))"
    using b(1) [OF p lo hi] by simp
  show "exp (- (1 / 2) * (ln 4 / ln (7 / 2 :: real))) \<le> 1000000 / 1738964"
    using b(2) [OF p lo hi] by simp
qed

lemma exp_neg_half_X_dog:
  "1000000 / 1550349 \<le> exp (- (1 / 2) * (ln 3 / ln (7 / 2 :: real)))"
  "exp (- (1 / 2) * (ln 3 / ln (7 / 2 :: real))) \<le> 1000000 / 1550333"
proof -
  note b = exp_neg_half_bounds [OF X_dog_bounds, of "1550333 / 1000000" "1550349 / 1000000"]
  have p: "(0::real) \<le> 87694 / 100000" "(87696 / 100000 :: real) \<le> 2" "(0::real) < 1550333 / 1000000"
    by simp_all
  have lo: "(1550333 / 1000000 :: real) \<le> exp_poly (87694 / 100000 / 2)"
    by (simp add: exp_poly_def power_divide)
  have hi: "exp_poly (87696 / 100000 / 2) + (87696 / 100000 / 2) ^ 10 / 1209600
      \<le> (1550349 / 1000000 :: real)"
    by (simp add: exp_poly_def power_divide)
  show "1000000 / 1550349 \<le> exp (- (1 / 2) * (ln 3 / ln (7 / 2 :: real)))"
    using b(1) [OF p lo hi] by simp
  show "exp (- (1 / 2) * (ln 3 / ln (7 / 2 :: real))) \<le> 1000000 / 1550333"
    using b(2) [OF p lo hi] by simp
qed

lemma exp_1_bounds: "2718281 / 1000000 \<le> exp (1::real)" "exp (1::real) \<le> 2718283 / 1000000"
proof -
  show "2718281 / 1000000 \<le> exp (1::real)"
    by (rule exp_ge_numeral) (simp_all add: exp_poly_def)
  show "exp (1::real) \<le> 2718283 / 1000000"
    by (rule exp_le_numeral) (simp_all add: exp_poly_def)
qed

lemma exp_3_eq: "exp (3::real) = exp 1 ^ 3"
  using exp_of_nat_mult [of 3 "1::real"] by simp

lemma exp_neg_3_bounds: "10000 / 200856 \<le> exp (- 3 :: real)" "exp (- 3 :: real) \<le> 10000 / 200855"
proof -
  have "(200855 / 10000 :: real) \<le> (2718281 / 1000000) ^ 3" by (simp add: power_divide)
  also have "\<dots> \<le> exp 1 ^ 3" using exp_1_bounds(1) by (intro power_mono) simp_all
  finally have lo: "200855 / 10000 \<le> exp (3::real)" by (simp only: exp_3_eq)
  have "exp (1::real) ^ 3 \<le> (2718283 / 1000000) ^ 3"
    using exp_1_bounds(2) by (intro power_mono) simp_all
  also have "\<dots> \<le> 200856 / 10000" by (simp add: power_divide)
  finally have hi: "exp (3::real) \<le> 200856 / 10000" by (simp only: exp_3_eq)
  have eq: "exp (- 3 :: real) = 1 / exp 3" by (simp add: exp_minus inverse_eq_divide)
  have "1 / (200856 / 10000) \<le> 1 / exp (3::real)" using hi by (intro frac_le) simp_all
  then show "10000 / 200856 \<le> exp (- 3 :: real)" by (simp add: eq)
  have "1 / exp (3::real) \<le> 1 / (200855 / 10000)" using lo by (intro frac_le) simp_all
  then show "exp (- 3 :: real) \<le> 10000 / 200855" by (simp add: eq)
qed

lemma sqrt_11_bounds: "331662 / 100000 \<le> sqrt 11" "sqrt 11 \<le> 331663 / 100000"
proof -
  show "331662 / 100000 \<le> sqrt 11"
    by (rule real_le_rsqrt) (simp add: power_divide)
  show "sqrt 11 \<le> 331663 / 100000"
    by (rule real_le_lsqrt) (simp_all add: power_divide)
qed

lemma exp_neg_half_Y_cat: "exp (- (1 / 2) * (3 * ln (11::real))) = 1 / (11 * sqrt 11)"
proof -
  have h: "exp (ln 11 / 2) = sqrt (11::real)"
  proof -
    have "exp (ln 11 / 2) ^ 2 = exp (ln (11::real))"
      by (simp add: power2_eq_square flip: exp_add)
    then have "exp (ln 11 / 2) ^ 2 = (11::real)" by simp
    then show ?thesis by (metis exp_ge_zero real_sqrt_unique)
  qed
  have "exp (3 * ln 11 / 2) = exp (ln (11::real) + ln 11 / 2)" by simp
  also have "\<dots> = 11 * sqrt 11" by (simp only: exp_add h) simp
  finally have "exp (3 * ln 11 / 2) = 11 * sqrt (11::real)" .
  moreover have "exp (- (1 / 2) * (3 * ln (11::real))) = 1 / exp (3 * ln 11 / 2)"
    by (simp add: exp_minus inverse_eq_divide)
  ultimately show ?thesis by simp
qed

lemma exp_neg_half_Y_dog: "exp (- (1 / 2) * (2 * ln (11::real))) = 1 / 11"
  by (simp add: exp_minus inverse_eq_divide)

lemma exp_neg_half_tau_y: "0 < exp (- (1 / 2) * (65::real))" "exp (- (1 / 2) * (65::real)) \<le> 1 / 2 ^ 32"
proof -
  show "0 < exp (- (1 / 2) * (65::real))" by simp
  have "(2::real) ^ 32 \<le> exp 1 ^ 32"
    using exp_1_bounds(1) by (intro power_mono) simp_all
  also have "\<dots> = exp (32::real)" using exp_of_nat_mult [of 32 "1::real"] by simp
  also have "\<dots> \<le> exp (65 / 2)" by simp
  finally have "(2::real) ^ 32 \<le> exp (65 / 2)" .
  then have "1 / exp (65 / 2 :: real) \<le> 1 / 2 ^ 32" by (intro frac_le) simp_all
  moreover have "exp (- (1 / 2) * (65::real)) = 1 / exp (65 / 2)"
    by (simp add: exp_minus inverse_eq_divide)
  ultimately show "exp (- (1 / 2) * (65::real)) \<le> 1 / 2 ^ 32" by simp
qed

lemma quotient_bounds:
  fixes n d :: real
  assumes "nl \<le> n" "n \<le> nu" "dl \<le> d" "d \<le> du" "0 \<le> nl" "0 < dl"
  shows "nl / du \<le> n / d" and "n / d \<le> nu / dl"
proof -
  show "nl / du \<le> n / d" using assms by (intro frac_le) simp_all
  show "n / d \<le> nu / dl" using assms by (intro frac_le) simp_all
qed

lemma den_x_bounds:
  "1 - 10000 / 200855 \<le> 1 - exp (- 3 :: real)" "1 - exp (- 3 :: real) \<le> 1 - 10000 / 200856"
  using exp_neg_3_bounds by simp_all

lemma den_y_bounds:
  "1 - 1 / 2 ^ 32 \<le> 1 - exp (- (1 / 2) * (65::real))" "1 - exp (- (1 / 2) * (65::real)) \<le> 1"
  using exp_neg_half_tau_y by simp_all

lemma saturation_X_cat:
  "spec_saturation (ln 4 / ln (7 / 2)) 6 (1 / 2) =
     (1 - exp (- (1 / 2) * (ln 4 / ln (7 / 2)))) / (1 - exp (- 3))"
  "447210 / 1000000 \<le> spec_saturation (ln 4 / ln (7 / 2)) 6 (1 / 2)"
  "spec_saturation (ln 4 / ln (7 / 2)) 6 (1 / 2) \<le> 447217 / 1000000"
proof -
  have r: "0 < ln 4 / ln (7 / 2 :: real)" "ln 4 / ln (7 / 2 :: real) < 6 / 2"
    using X_cat_bounds by linarith+
  show eq: "spec_saturation (ln 4 / ln (7 / 2)) 6 (1 / 2) =
     (1 - exp (- (1 / 2) * (ln 4 / ln (7 / 2)))) / (1 - exp (- 3))"
    unfolding spec_saturation_def using r by simp
  have n: "1 - 1000000 / 1738964 \<le> 1 - exp (- (1 / 2) * (ln 4 / ln (7 / 2 :: real)))"
    "1 - exp (- (1 / 2) * (ln 4 / ln (7 / 2 :: real))) \<le> 1 - 1000000 / 1738983"
    using exp_neg_half_X_cat by linarith+
  note q = quotient_bounds [OF n den_x_bounds]
  have "(447210 / 1000000 :: real) \<le> (1 - 1000000 / 1738964) / (1 - 10000 / 200856)" by simp
  also have "\<dots> \<le> (1 - exp (- (1 / 2) * (ln 4 / ln (7 / 2)))) / (1 - exp (- 3))"
    by (rule q(1)) simp_all
  finally show "447210 / 1000000 \<le> spec_saturation (ln 4 / ln (7 / 2)) 6 (1 / 2)"
    by (simp only: eq)
  have "(1 - exp (- (1 / 2) * (ln 4 / ln (7 / 2)))) / (1 - exp (- 3))
      \<le> (1 - 1000000 / 1738983) / (1 - 10000 / 200855 :: real)"
    by (rule q(2)) simp_all
  also have "\<dots> \<le> 447217 / 1000000" by simp
  finally show "spec_saturation (ln 4 / ln (7 / 2)) 6 (1 / 2) \<le> 447217 / 1000000"
    by (simp only: eq)
qed

lemma saturation_X_dog:
  "spec_saturation (ln 3 / ln (7 / 2)) 6 (1 / 2) =
     (1 - exp (- (1 / 2) * (ln 3 / ln (7 / 2)))) / (1 - exp (- 3))"
  "373576 / 1000000 \<le> spec_saturation (ln 3 / ln (7 / 2)) 6 (1 / 2)"
  "spec_saturation (ln 3 / ln (7 / 2)) 6 (1 / 2) \<le> 373584 / 1000000"
proof -
  have r: "0 < ln 3 / ln (7 / 2 :: real)" "ln 3 / ln (7 / 2 :: real) < 6 / 2"
    using X_dog_bounds by linarith+
  show eq: "spec_saturation (ln 3 / ln (7 / 2)) 6 (1 / 2) =
     (1 - exp (- (1 / 2) * (ln 3 / ln (7 / 2)))) / (1 - exp (- 3))"
    unfolding spec_saturation_def using r by simp
  have n: "1 - 1000000 / 1550333 \<le> 1 - exp (- (1 / 2) * (ln 3 / ln (7 / 2 :: real)))"
    "1 - exp (- (1 / 2) * (ln 3 / ln (7 / 2 :: real))) \<le> 1 - 1000000 / 1550349"
    using exp_neg_half_X_dog by linarith+
  note q = quotient_bounds [OF n den_x_bounds]
  have "(373576 / 1000000 :: real) \<le> (1 - 1000000 / 1550333) / (1 - 10000 / 200856)" by simp
  also have "\<dots> \<le> (1 - exp (- (1 / 2) * (ln 3 / ln (7 / 2)))) / (1 - exp (- 3))"
    by (rule q(1)) simp_all
  finally show "373576 / 1000000 \<le> spec_saturation (ln 3 / ln (7 / 2)) 6 (1 / 2)"
    by (simp only: eq)
  have "(1 - exp (- (1 / 2) * (ln 3 / ln (7 / 2)))) / (1 - exp (- 3))
      \<le> (1 - 1000000 / 1550349) / (1 - 10000 / 200855 :: real)"
    by (rule q(2)) simp_all
  also have "\<dots> \<le> 373584 / 1000000" by simp
  finally show "spec_saturation (ln 3 / ln (7 / 2)) 6 (1 / 2) \<le> 373584 / 1000000"
    by (simp only: eq)
qed

lemma saturation_Y_cat:
  "spec_saturation (3 * ln 11) 65 (1 / 2) =
     (1 - exp (- (1 / 2) * (3 * ln 11))) / (1 - exp (- (1 / 2) * 65))"
  "972589 / 1000000 \<le> spec_saturation (3 * ln 11) 65 (1 / 2)"
  "spec_saturation (3 * ln 11) 65 (1 / 2) \<le> 972590 / 1000000"
proof -
  have r: "0 < 3 * ln (11::real)" "3 * ln (11::real) < 65 / 2"
    using ln_11_bounds by linarith+
  show eq: "spec_saturation (3 * ln 11) 65 (1 / 2) =
     (1 - exp (- (1 / 2) * (3 * ln 11))) / (1 - exp (- (1 / 2) * 65))"
    unfolding spec_saturation_def using r by simp
  have lo: "3648282 / 100000 \<le> 11 * sqrt 11" and hi: "11 * sqrt 11 \<le> 3648293 / 100000"
    using sqrt_11_bounds by argo+
  have b1: "1 / (3648282 / 100000) = (100000 / 3648282 :: real)"
    and b2: "1 / (3648293 / 100000) = (100000 / 3648293 :: real)" by simp_all
  have "1 / (11 * sqrt 11) \<le> 1 / (3648282 / 100000)"
    using lo by (intro frac_le) simp_all
  then have cu: "exp (- (1 / 2) * (3 * ln (11::real))) \<le> 100000 / 3648282"
    by (simp only: exp_neg_half_Y_cat b1)
  have "0 < 11 * sqrt 11" by simp
  then have "1 / (3648293 / 100000) \<le> 1 / (11 * sqrt 11)"
    using hi by (intro frac_le) simp_all
  then have cl: "100000 / 3648293 \<le> exp (- (1 / 2) * (3 * ln (11::real)))"
    by (simp only: exp_neg_half_Y_cat b2)
  have n: "1 - 100000 / 3648282 \<le> 1 - exp (- (1 / 2) * (3 * ln (11::real)))"
    "1 - exp (- (1 / 2) * (3 * ln (11::real))) \<le> 1 - 100000 / 3648293"
    using cl cu by argo+
  note q = quotient_bounds [OF n den_y_bounds]
  have "(972589 / 1000000 :: real) \<le> (1 - 100000 / 3648282) / 1" by simp
  also have "\<dots> \<le> (1 - exp (- (1 / 2) * (3 * ln 11))) / (1 - exp (- (1 / 2) * 65))"
    by (rule q(1)) simp_all
  finally show "972589 / 1000000 \<le> spec_saturation (3 * ln 11) 65 (1 / 2)"
    by (simp only: eq)
  have "(1 - exp (- (1 / 2) * (3 * ln 11))) / (1 - exp (- (1 / 2) * 65))
      \<le> (1 - 100000 / 3648293) / (1 - 1 / 2 ^ 32 :: real)"
    by (rule q(2)) simp_all
  also have "\<dots> \<le> 972590 / 1000000" by simp
  finally show "spec_saturation (3 * ln 11) 65 (1 / 2) \<le> 972590 / 1000000"
    by (simp only: eq)
qed

lemma saturation_Y_dog:
  "spec_saturation (2 * ln 11) 65 (1 / 2) =
     (1 - exp (- (1 / 2) * (2 * ln 11))) / (1 - exp (- (1 / 2) * 65))"
  "909090 / 1000000 \<le> spec_saturation (2 * ln 11) 65 (1 / 2)"
  "spec_saturation (2 * ln 11) 65 (1 / 2) \<le> 909091 / 1000000"
proof -
  have r: "0 < 2 * ln (11::real)" "2 * ln (11::real) < 65 / 2"
    using ln_11_bounds by linarith+
  show eq: "spec_saturation (2 * ln 11) 65 (1 / 2) =
     (1 - exp (- (1 / 2) * (2 * ln 11))) / (1 - exp (- (1 / 2) * 65))"
    unfolding spec_saturation_def using r by simp
  have n: "1 - 1 / 11 \<le> 1 - exp (- (1 / 2) * (2 * ln (11::real)))"
    "1 - exp (- (1 / 2) * (2 * ln (11::real))) \<le> 1 - 1 / 11"
    unfolding exp_neg_half_Y_dog by simp_all
  note q = quotient_bounds [OF n den_y_bounds]
  have "(909090 / 1000000 :: real) \<le> (1 - 1 / 11) / 1" by simp
  also have "\<dots> \<le> (1 - exp (- (1 / 2) * (2 * ln 11))) / (1 - exp (- (1 / 2) * 65))"
    by (rule q(1)) simp_all
  finally show "909090 / 1000000 \<le> spec_saturation (2 * ln 11) 65 (1 / 2)"
    by (simp only: eq)
  have "(1 - exp (- (1 / 2) * (2 * ln 11))) / (1 - exp (- (1 / 2) * 65))
      \<le> (1 - 1 / 11) / (1 - 1 / 2 ^ 32 :: real)"
    by (rule q(2)) simp_all
  also have "\<dots> \<le> 909091 / 1000000" by simp
  finally show "spec_saturation (2 * ln 11) 65 (1 / 2) \<le> 909091 / 1000000"
    by (simp only: eq)
qed

lemma spec_example_score_bounds:
  "238179 / 100000 < spec_example_score" "spec_example_score < 238182 / 100000"
  unfolding spec_example_score_def
  using saturation_X_cat(2,3) saturation_X_dog(2,3) saturation_Y_cat(2,3) saturation_Y_dog(2,3)
  by argo+

section \<open>The worked example\<close>

lemma truncated_exp_score_spec:
  "0 < tau \<Longrightarrow> 0 < lam \<Longrightarrow> truncated_exp_score x tau lam = Inr (spec_saturation x tau lam)"
  by (simp add: truncated_exp_score_def spec_saturation_def py_div_def)

lemma compute_normalized_tf_cat:
  "compute_normalized_tf 3 100 (5 / 2) = Inr (ln 4 / ln (7 / 2), 3 * ln 11)"
  by (simp add: compute_normalized_tf_def py_log_def py_div_def c_def)

lemma compute_normalized_tf_dog:
  "compute_normalized_tf 2 100 (5 / 2) = Inr (ln 3 / ln (7 / 2), 2 * ln 11)"
  by (simp add: compute_normalized_tf_def py_log_def py_div_def c_def)

lemma py_split_cat_dog: "py_split ''cat dog'' = [''cat'', ''dog'']"
  by (simp add: py_split_def is_space_def)

lemma score_terms_cat_dog:
  assumes "tf_get tf_map ''cat'' = 3" "tf_get tf_map ''dog'' = 2"
    and "idf_of ''cat'' s1 = (Inr 2, s1)" "idf_of ''dog'' s1 = (Inr (3 / 2), s1)"
  shows "score_terms idf_of tf_map 100 (5 / 2) [''cat'', ''dog''] 0 s1 = (Inr spec_example_score, s1)"
proof -
  have x: "truncated_exp_score v tau_x lambda_exp = Inr (spec_saturation v 6 (1 / 2))" for v
    using truncated_exp_score_spec [of tau_x lambda_exp v] by (simp add: tau_x_def lambda_exp_def)
  have y: "truncated_exp_score v tau_y lambda_exp = Inr (spec_saturation v 65 (1 / 2))" for v
    using truncated_exp_score_spec [of tau_y lambda_exp v] by (simp add: tau_y_def lambda_exp_def)
  show ?thesis
    using assms compute_normalized_tf_cat compute_normalized_tf_dog
    by (simp add: x y alpha_def spec_example_score_def)
qed

text \<open>
  Claim C2, amended. For the query \<open>cat dog\<close>, a document of 100 words in which
  \<open>cat\<close> occurs 3 times and \<open>dog\<close> 2 times, and IDF values 2.0 for \<open>cat\<close> and 1.5
  for \<open>dog\<close>, the reranker computes \<open>M = 2.5\<close>; for \<open>cat\<close>,
  \<open>X = ln 4 / ln 3.5\<close>, which lies between 1.10658 and 1.10660 (about 1.1066, not 1.085),
  and \<open>Y = 3 ln 11\<close>, between 7.19367 and 7.19371 (about 7.19); both go through the
  exponential branch of the saturation curve with \<open>(6, 0.5)\<close> and \<open>(65, 0.5)\<close>; each
  term contributes \<open>idf * (0.5 f(X) + 0.5 f(Y))\<close>, and the sum of the two contributions,
  the score of the document, lies strictly between 2.38179 and 2.38182: it is 2.3818 to
  four decimal places.
\<close>

theorem example_cat_dog_score:
  "raw_of (docid h) s = (Inr (Some content), s1) \<Longrightarrow>
   length (py_split content) = 100 \<Longrightarrow>
   count_list (py_split content) ''cat'' = 3 \<Longrightarrow>
   count_list (py_split content) ''dog'' = 2 \<Longrightarrow>
   idf_of ''cat'' s1 = (Inr 2, s1) \<Longrightarrow>
   idf_of ''dog'' s1 = (Inr (3 / 2), s1) \<Longrightarrow>
   compute_mean_tf (build_tf_map (py_split content)) (py_split ''cat dog'') = Inr (5 / 2) \<and>
   compute_normalized_tf 3 100 (5 / 2) = Inr (ln 4 / ln (7 / 2), 3 * ln 11) \<and>
   compute_normalized_tf 2 100 (5 / 2) = Inr (ln 3 / ln (7 / 2), 2 * ln 11) \<and>
   110658 / 100000 \<le> ln 4 / ln (7 / 2 :: real) \<and> ln 4 / ln (7 / 2 :: real) \<le> 110660 / 100000 \<and>
   719367 / 100000 \<le> 3 * ln (11 :: real) \<and> 3 * ln (11 :: real) \<le> 719371 / 100000 \<and>
   truncated_exp_score (ln 4 / ln (7 / 2)) tau_x lambda_exp =
     Inr ((1 - exp (- (1 / 2) * (ln 4 / ln (7 / 2)))) / (1 - exp (- 3))) \<and>
   truncated_exp_score (3 * ln 11) tau_y lambda_exp =
     Inr ((1 - exp (- (1 / 2) * (3 * ln 11))) / (1 - exp (- (1 / 2) * 65))) \<and>
   score_document raw_of idf_of ''cat dog'' h s = (Inr spec_example_score, s1) \<and>
   238179 / 100000 < spec_example_score \<and> spec_example_score < 238182 / 100000"
proof -
  assume raw: "raw_of (docid h) s = (Inr (Some content), s1)"
    and len: "length (py_split content) = 100"
    and cat: "count_list (py_split content) ''cat'' = 3"
    and dog: "count_list (py_split content) ''dog'' = 2"
    and idf_cat: "idf_of ''cat'' s1 = (Inr 2, s1)"
    and idf_dog: "idf_of ''dog'' s1 = (Inr (3 / 2), s1)"
  let ?ws = "py_split content"
  have in_cat: "''cat'' \<in> set ?ws"
  proof (rule ccontr)
    assume "''cat'' \<notin> set ?ws"
    then have "count_list ?ws ''cat'' = 0" by (simp add: count_list_0_iff)
    with cat show False by simp
  qed
  have in_dog: "''dog'' \<in> set ?ws"
  proof (rule ccontr)
    assume "''dog'' \<notin> set ?ws"
    then have "count_list ?ws ''dog'' = 0" by (simp add: count_list_0_iff)
    with dog show False by simp
  qed
  have mean: "compute_mean_tf (build_tf_map ?ws) (py_split ''cat dog'') = Inr (5 / 2)"
    using in_cat in_dog cat dog by (simp add: compute_mean_tf_closed py_split_cat_dog)
  have "score_document raw_of idf_of ''cat dog'' h s =
     (case compute_mean_tf (build_tf_map ?ws) (py_split ''cat dog'') of
        Inl e \<Rightarrow> (Inl e, s1)
      | Inr mean_tf \<Rightarrow>
          score_terms idf_of (build_tf_map ?ws) (length ?ws) mean_tf (py_split ''cat dog'') 0 s1)"
    using raw by (rule score_document_unfold) simp
  also have "\<dots> = score_terms idf_of (build_tf_map ?ws) 100 (5 / 2) [''cat'', ''dog''] 0 s1"
    unfolding py_split_cat_dog using mean by (simp add: len py_split_cat_dog del: score_terms.simps)
  also have "\<dots> = (Inr spec_example_score, s1)"
    using idf_cat idf_dog by (intro score_terms_cat_dog) (simp_all add: tf_get_build_tf_map cat dog)
  finally have doc: "score_document raw_of idf_of ''cat dog'' h s = (Inr spec_example_score, s1)" .
  have fx: "truncated_exp_score (ln 4 / ln (7 / 2)) tau_x lambda_exp =
     Inr ((1 - exp (- (1 / 2) * (ln 4 / ln (7 / 2)))) / (1 - exp (- 3)))"
    using truncated_exp_score_spec [of tau_x lambda_exp "ln 4 / ln (7 / 2)"] saturation_X_cat(1)
    by (simp add: tau_x_def lambda_exp_def)
  have fy: "truncated_exp_score (3 * ln 11) tau_y lambda_exp =
     Inr ((1 - exp (- (1 / 2) * (3 * ln 11))) / (1 - exp (- (1 / 2) * 65)))"
    using truncated_exp_score_spec [of tau_y lambda_exp "3 * ln 11"] saturation_Y_cat(1)
    by (simp add: tau_y_def lambda_exp_def)
  have Y: "719367 / 100000 \<le> 3 * ln (11 :: real)" "3 * ln (11 :: real) \<le> 719371 / 100000"
    using ln_11_bounds by argo+
  show ?thesis
    using mean compute_normalized_tf_cat compute_normalized_tf_dog X_cat_bounds Y fx fy doc
      spec_example_score_bounds
    by blast
qed

text \<open>
  Claim C2 gives \<open>X = ln 4 / ln 3.5\<close> for the term \<open>cat\<close> and approximates it as
  1.085. The program computes \<open>ln 4 / ln 3.5\<close> indeed, and this number is above 1.105:
  the stated approximation is off by more than 0.02.
\<close>

theorem example_X_is_not_1085:
  "compute_normalized_tf 3 100 (5 / 2) = Inr (ln 4 / ln (7 / 2), 3 * ln 11) \<and>
   1085 / 1000 + 2 / 100 < ln 4 / ln (7 / 2 :: real)"
proof
  show "compute_normalized_tf 3 100 (5 / 2) = Inr (ln 4 / ln (7 / 2), 3 * ln 11)"
    by (rule compute_normalized_tf_cat)
  show "1085 / 1000 + 2 / 100 < ln 4 / ln (7 / 2 :: real)"
    using X_cat_bounds(1) by argo
qed

lemma example_content_split:
  "py_split example_content = replicate 3 ''cat'' @ replicate 2 ''dog'' @ replicate 95 ''of''"
  by code_simp

lemma count_list_replicate: "count_list (replicate n x) y = (if x = y then n else 0)"
  by (induction n) auto

theorem example_cat_dog_score_witness:
  "score_document (\<lambda>d s. (Inr (Some example_content), s))
       (\<lambda>t s. (Inr (if t = ''cat'' then 2 else 3 / 2), s)) ''cat dog''
       \<lparr>docid = ''d1'', score = 12\<rparr> () = (Inr spec_example_score, ()) \<and>
   238179 / 100000 < spec_example_score \<and> spec_example_score < 238182 / 100000"
  using example_cat_dog_score [of "\<lambda>d s. (Inr (Some example_content), s)"
      "\<lparr>docid = ''d1'', score = 12\<rparr>" "()" example_content "()"
      "\<lambda>t s. (Inr (if t = ''cat'' then 2 else 3 / 2), s)"]
  by (simp add: example_content_split count_list_replicate)

section \<open>The reranker with the fallback calculator\<close>

text \<open>
  With the fallback calculator as IDF provider: a document in which no query term occurs
  gets the score 0, and neither the calculator (its cache included) nor the searcher is
  touched after the document was fetched.
\<close>

lemma score_document_fallback_absent_terms:
  assumes raw: "raw_of (docid h) w = (Inr raw, w1)"
    and absent: "\<forall>t \<in> set (py_split query).
        t \<notin> set (py_split (case raw of None \<Rightarrow> [] | Some text \<Rightarrow> text))"
  shows "score_document (searcher_raw raw_of) (fallback_idf search) query h (calc, w) =
     (Inr 0, calc, w1)"
proof -
  let ?ws = "py_split (case raw of None \<Rightarrow> [] | Some text \<Rightarrow> text)"
  have r: "searcher_raw raw_of (docid h) (calc, w) = (Inr raw, calc, w1)"
    using raw by (simp add: searcher_raw_def)
  have m: "compute_mean_tf (build_tf_map ?ws) (py_split query) = Inr 0"
    using absent by (simp add: compute_mean_tf_closed)
  have z: "score_terms (fallback_idf search) (build_tf_map ?ws) (length ?ws) 0 (py_split query) 0
      (calc, w1) = (Inr 0, calc, w1)"
    using absent by (intro score_terms_all_zero) (simp add: tf_get_build_tf_map count_list_0_iff)
  have "score_document (searcher_raw raw_of) (fallback_idf search) query h (calc, w) =
     (case compute_mean_tf (build_tf_map ?ws) (py_split query) of
        Inl e \<Rightarrow> (Inl e, calc, w1)
      | Inr mean_tf \<Rightarrow>
          score_terms (fallback_idf search) (build_tf_map ?ws) (length ?ws) mean_tf
            (py_split query) 0 (calc, w1))"
    using r by (rule score_document_unfold) simp
  then show ?thesis by (simp add: m z del: score_terms.simps)
qed

end
